theory Spec2Isabelle
  imports Complex_Main "HOL-Library.AList" "HOL-Library.Sublist"
begin

section \<open>Values shared by the Go sources\<close>

text \<open>
  A Go \<^verbatim>\<open>map[K]V\<close> is an association list read with \<^const>\<open>map_of\<close> and written with
  \<^const>\<open>AList.update\<close>; the nil map and the empty map are both \<open>[]\<close> (the code only
  reads them and takes their \<^verbatim>\<open>len\<close>). The order of the list is the order of first
  insertion; Go's own iteration order is unspecified.
\<close>

type_synonym ('k, 'v) gomap = "('k \<times> 'v) list"

text \<open>
  A value of type \<^verbatim>\<open>any\<close> that came out of \<^verbatim>\<open>encoding/json\<close>: nil, bool, float64
  (kept as the text of its literal), string, \<^verbatim>\<open>[]any\<close> and \<^verbatim>\<open>map[string]any\<close>.
\<close>

datatype json =
    JNull
  | JBool bool
  | JNumber string
  | JString string
  | JArray "json list"
  | JObject "(string \<times> json) list"

text \<open>
  \<^verbatim>\<open>time.Duration\<close> is an int64 count of nanoseconds; \<open>wrap64\<close> is the wrap-around of
  int64 arithmetic, \<open>clamp64\<close> the saturation of \<^verbatim>\<open>Time.Sub\<close>.
\<close>

type_synonym duration = int

definition wrap64 :: "int \<Rightarrow> int" where
  "wrap64 x = (x + 2 ^ 63) mod 2 ^ 64 - 2 ^ 63"

definition clamp64 :: "int \<Rightarrow> int" where
  "clamp64 x = (if x < - (2 ^ 63) then - (2 ^ 63) else if x > 2 ^ 63 - 1 then 2 ^ 63 - 1 else x)"

definition Second :: duration where
  "Second = 1000000000"

text \<open>
  An \<^verbatim>\<open>http.Header\<close> is observed by this code through \<^verbatim>\<open>Get(key)\<close> only: the first
  value stored under the key, or the empty string. A header set is modelled by that
  lookup; a nil header is \<open>None\<close>.
\<close>

type_synonym Header = "string \<Rightarrow> string"

text \<open>
  The parts of Go's standard library that this code calls and that are taken as given:
  \<^verbatim>\<open>json.Unmarshal\<close> into a \<^verbatim>\<open>map[string]any\<close> (\<open>None\<close> when it returns an error),
  \<^verbatim>\<open>json.Marshal\<close> of an \<^verbatim>\<open>any\<close> and \<^verbatim>\<open>json.Unmarshal\<close> into an \<^verbatim>\<open>AgentDatum\<close> or a
  \<^verbatim>\<open>[]AgentDatum\<close> (\<open>Inl\<close> the error text), \<^verbatim>\<open>strings.TrimSpace\<close>, \<^verbatim>\<open>http.ParseTime\<close>
  (the instant in nanoseconds, \<open>None\<close> when it returns an error), the clock
  \<^verbatim>\<open>time.Now\<close>, and the order in which \<^verbatim>\<open>range\<close> visits the keys of a map: Go fixes
  none, so \<open>map_range\<close> stands for whatever rearrangement of the keys a run meets.
\<close>

record AgentDatum =
  Key :: string
  Description :: string
  DataType :: string
  Value :: string
  Cost :: "real option"

record golib =
  json_Unmarshal_map :: "string \<Rightarrow> (string, json) gomap option"
  json_Marshal :: "json \<Rightarrow> string + string"
  json_Unmarshal_datum :: "string \<Rightarrow> string + AgentDatum"
  json_Unmarshal_datums :: "string \<Rightarrow> string + AgentDatum list"
  strings_TrimSpace :: "string \<Rightarrow> string"
  http_ParseTime :: "string \<Rightarrow> int option"
  time_Now :: int
  map_range :: "string list \<Rightarrow> string list"

subsection \<open>Formatting and string helpers of the standard library\<close>

text \<open>\<^verbatim>\<open>%d\<close> of \<^verbatim>\<open>fmt.Sprintf\<close>: decimal digits, with a minus sign below zero.\<close>

definition digit_char :: "nat \<Rightarrow> char" where
  "digit_char n = char_of (48 + n)"

function show_nat :: "nat \<Rightarrow> string" where
  "show_nat n = (if n < 10 then [digit_char n] else show_nat (n div 10) @ [digit_char (n mod 10)])"
  by pat_completeness auto
termination
  by (relation "measure id") auto

declare show_nat.simps [simp del]

definition show_int :: "int \<Rightarrow> string" where
  "show_int i = (if i < 0 then CHR ''-'' # show_nat (nat (- i)) else show_nat (nat i))"

text \<open>\<^verbatim>\<open>%v\<close> of a \<^verbatim>\<open>[]string\<close>: the elements separated by spaces, in brackets.\<close>

fun join_space :: "string list \<Rightarrow> string" where
  "join_space [] = []"
| "join_space [x] = x"
| "join_space (x # y # ys) = x @ '' '' @ join_space (y # ys)"

definition show_strings :: "string list \<Rightarrow> string" where
  "show_strings xs = ''['' @ join_space xs @ '']''"

text \<open>
  \<^verbatim>\<open>strconv.Atoi\<close> on a 64-bit platform: an optional sign, then one or more decimal
  digits, and a value within int64; anything else is an error (\<open>None\<close>).
\<close>

definition is_digit :: "char \<Rightarrow> bool" where
  "is_digit c = (48 \<le> (of_char c :: nat) \<and> (of_char c :: nat) \<le> 57)"

fun parse_digits :: "string \<Rightarrow> nat \<Rightarrow> nat option" where
  "parse_digits [] acc = Some acc"
| "parse_digits (c # cs) acc =
     (if is_digit c then parse_digits cs (acc * 10 + (of_char c - 48)) else None)"

definition Atoi :: "string \<Rightarrow> int option" where
  "Atoi s =
     (let (neg, ds) = (case s of
                         c # r \<Rightarrow> if c = CHR ''-'' then (True, r)
                                  else if c = CHR ''+'' then (False, r) else (False, s)
                       | [] \<Rightarrow> (False, s))
      in if ds = [] then None
         else (case parse_digits ds 0 of
                 None \<Rightarrow> None
               | Some n \<Rightarrow>
                   (let v = (if neg then - int n else int n)
                    in if - (2 ^ 63) \<le> v \<and> v \<le> 2 ^ 63 - 1 then Some v else None)))"

text \<open>
  \<^verbatim>\<open>strings.Contains\<close>, \<^verbatim>\<open>strings.Split\<close> (for a non-empty separator: the pieces between
  the leftmost non-overlapping occurrences) and \<^verbatim>\<open>strings.TrimSuffix\<close>.
\<close>

fun Contains :: "string \<Rightarrow> string \<Rightarrow> bool" where
  "Contains [] sub = (sub = [])"
| "Contains (c # cs) sub = (prefix sub (c # cs) \<or> Contains cs sub)"

function split_from :: "string \<Rightarrow> string \<Rightarrow> string \<Rightarrow> string list" where
  "split_from sep s cur =
     (case s of
        [] \<Rightarrow> [cur]
      | c # cs \<Rightarrow>
          if sep \<noteq> [] \<and> prefix sep s then cur # split_from sep (drop (length sep) s) []
          else split_from sep cs (cur @ [c]))"
  by pat_completeness auto
termination
  by (relation "measure (\<lambda>(sep, s, cur). length s)") auto

declare split_from.simps [simp del]

definition Split :: "string \<Rightarrow> string \<Rightarrow> string list" where
  "Split s sep = split_from sep s []"

definition TrimSuffix :: "string \<Rightarrow> string \<Rightarrow> string" where
  "TrimSuffix s suf = (if suffix suf s then take (length s - length suf) s else s)"

section \<open>Job status and result types (types.go)\<close>

text \<open>\<^verbatim>\<open>type JobStatus int\<close> with its seven named values; any other int renders as unknown.\<close>

type_synonym JobStatus = int

definition JobPending :: JobStatus where "JobPending = 0"
definition JobStarted :: JobStatus where "JobStarted = 1"
definition JobRetry :: JobStatus where "JobRetry = 2"
definition JobSuccess :: JobStatus where "JobSuccess = 3"
definition JobFailure :: JobStatus where "JobFailure = 4"
definition JobCancelled :: JobStatus where "JobCancelled = 5"
definition JobCached :: JobStatus where "JobCached = 6"

definition String :: "JobStatus \<Rightarrow> string" where
  "String s =
     (if s = JobPending then ''pending''
      else if s = JobStarted then ''started''
      else if s = JobRetry then ''retry''
      else if s = JobSuccess then ''success''
      else if s = JobFailure then ''failure''
      else if s = JobCancelled then ''cancelled''
      else if s = JobCached then ''cached''
      else ''unknown'')"

definition IsTerminal :: "JobStatus \<Rightarrow> bool" where
  "IsTerminal s = (s = JobSuccess \<or> s = JobFailure \<or> s = JobCancelled \<or> s = JobCached)"

record AgentJobStatus =
  Status :: JobStatus
  Timestamp :: real
  ErrorMessage :: "string option"

record Reference =
  URL :: string
  ResourceID :: string

record AgentJobResult =
  AgentID :: string
  AgentVersionID :: string
  Inputs :: "json list"
  InputTokens :: "int option"
  OutputTokens :: "int option"
  Outputs :: "AgentDatum list"

text \<open>The zero value \<^verbatim>\<open>AgentJobResult{}\<close>.\<close>

definition AgentJobResult_zero :: AgentJobResult where
  "AgentJobResult_zero =
     \<lparr>AgentID = [], AgentVersionID = [], Inputs = [], InputTokens = None,
      OutputTokens = None, Outputs = []\<rparr>"

text \<open>
  The fields of the two batch structs carry a suffix, \<open>_sb\<close> for
  \<^verbatim>\<open>AgentJobStatusBatch\<close> and \<open>_rb\<close> for \<^verbatim>\<open>AgentJobResultBatch\<close>, because they share
  their names with each other and with \<^verbatim>\<open>AgentJobResult\<close>.
\<close>

record AgentJobStatusBatch =
  ID_sb :: string
  Status_sb :: "JobStatus option"
  CreatedAt_sb :: json
  LastUpdatedAt_sb :: json

record AgentJobResultBatch =
  ID_rb :: string
  Status_rb :: "JobStatus option"
  Result_rb :: json
  Corrected_rb :: "AgentDatum list"
  AgentID_rb :: "string option"
  AgentVersionID_rb :: "string option"
  Cost_rb :: "real option"
  Inputs_rb :: "json list"
  InputTokens_rb :: "int option"
  OutputTokens_rb :: "int option"

text \<open>The struct literals \<^verbatim>\<open>AgentJobStatusBatch{ID: id}\<close> and \<^verbatim>\<open>AgentJobResultBatch{ID: id}\<close>.\<close>

definition status_placeholder :: "string \<Rightarrow> AgentJobStatusBatch" where
  "status_placeholder i =
     \<lparr>ID_sb = i, Status_sb = None, CreatedAt_sb = JNull, LastUpdatedAt_sb = JNull\<rparr>"

definition result_placeholder :: "string \<Rightarrow> AgentJobResultBatch" where
  "result_placeholder i =
     \<lparr>ID_rb = i, Status_rb = None, Result_rb = JNull, Corrected_rb = [], AgentID_rb = None,
      AgentVersionID_rb = None, Cost_rb = None, Inputs_rb = [], InputTokens_rb = None,
      OutputTokens_rb = None\<rparr>"

subsection \<open>GetReferences\<close>

text \<open>The body of the inner loop of \<^verbatim>\<open>GetReferences\<close>, for one element of the array.\<close>

definition item_refs :: "Reference list \<Rightarrow> json \<Rightarrow> Reference list" where
  "item_refs refs item =
     (case item of
        JString s \<Rightarrow>
          if \<not> Contains s ''/references/'' then refs
          else (let parts = Split s ''/references/''
                in if length parts > 1
                   then refs @ [\<lparr>URL = s, ResourceID = TrimSuffix (last parts) ''/''\<rparr>]
                   else refs)
      | _ \<Rightarrow> refs)"

text \<open>The body of the outer loop, for one output datum.\<close>

definition datum_refs :: "golib \<Rightarrow> Reference list \<Rightarrow> AgentDatum \<Rightarrow> Reference list" where
  "datum_refs lib refs out =
     (case json_Unmarshal_map lib (Value out) of
        None \<Rightarrow> refs
      | Some parsed \<Rightarrow>
          (case map_of parsed ''references'' of
             None \<Rightarrow> refs
           | Some raw \<Rightarrow>
               (case raw of
                  JArray arr \<Rightarrow> foldl item_refs refs arr
                | _ \<Rightarrow> refs)))"

definition GetReferences :: "golib \<Rightarrow> AgentJobResult \<Rightarrow> Reference list" where
  "GetReferences lib r = foldl (datum_refs lib) [] (Outputs r)"

section \<open>Error taxonomy (errors.go)\<close>

record APIError =
  StatusCode :: int
  Message :: string
  Body :: string
  RequestID :: string
  Details :: "(string, json) gomap"

text \<open>The two errors of package \<^verbatim>\<open>context\<close>.\<close>

datatype ctx_err = Canceled | DeadlineExceeded

text \<open>
  Every error value this code returns. The typed API errors embed an \<^verbatim>\<open>*APIError\<close>;
  \<open>PlainAPIError\<close> is the bare \<^verbatim>\<open>*APIError\<close> of the default branch. \<open>Wrapped m e\<close> is
  \<^verbatim>\<open>fmt.Errorf("m: %w", e)\<close>, \<open>LibError\<close> an error of the standard library with its text;
  the others are the \<^verbatim>\<open>fmt.Errorf\<close> and \<^verbatim>\<open>errors.New\<close> values of job.go and agents\_api.go,
  with the values formatted into them.
\<close>

datatype error =
    BadRequestError APIError
  | AuthenticationError APIError
  | InsufficientCreditsError APIError
  | ForbiddenError APIError
  | NotFoundError APIError
  | RateLimitError APIError "duration option"
  | ServerError APIError
  | PlainAPIError APIError
  | ContextError ctx_err
  | LibError string
  | Wrapped string error
  | AgentsAPINotSet
  | JobWaitCancelled string ctx_err
  | JobEnded string JobStatus
  | BatchWaitCancelled ctx_err
  | ResultMissing string
  | JobsFailed "string list"
  | JobNotFound string
  | MarshalOutput string nat string
  | UnmarshalOutput string nat string
  | MarshalResult string string
  | UnmarshalResult string string
  | StatusesNotFound "string list"
  | ResultsNotFound "string list"

text \<open>\<^verbatim>\<open>func (e *APIError) Error() string\<close>; the nil receiver is \<open>None\<close>.\<close>

definition APIError_Error :: "APIError option \<Rightarrow> string" where
  "APIError_Error e =
     (case e of
        None \<Rightarrow> []
      | Some a \<Rightarrow>
          if RequestID a \<noteq> []
          then ''roe api error ('' @ show_int (StatusCode a) @ ''): '' @ Message a
                 @ '' (request_id='' @ RequestID a @ '')''
          else ''roe api error ('' @ show_int (StatusCode a) @ ''): '' @ Message a)"

definition ctx_err_text :: "ctx_err \<Rightarrow> string" where
  "ctx_err_text c = (case c of Canceled \<Rightarrow> ''context canceled''
                              | DeadlineExceeded \<Rightarrow> ''context deadline exceeded'')"

text \<open>The text of each error: the method \<^verbatim>\<open>Error()\<close>.\<close>

fun Error :: "error \<Rightarrow> string" where
  "Error (BadRequestError a) = APIError_Error (Some a)"
| "Error (AuthenticationError a) = APIError_Error (Some a)"
| "Error (InsufficientCreditsError a) = APIError_Error (Some a)"
| "Error (ForbiddenError a) = APIError_Error (Some a)"
| "Error (NotFoundError a) = APIError_Error (Some a)"
| "Error (RateLimitError a d) = APIError_Error (Some a)"
| "Error (ServerError a) = APIError_Error (Some a)"
| "Error (PlainAPIError a) = APIError_Error (Some a)"
| "Error (ContextError c) = ctx_err_text c"
| "Error (LibError m) = m"
| "Error (Wrapped m e) = m @ '': '' @ Error e"
| "Error AgentsAPINotSet = ''agents API not set''"
| "Error (JobWaitCancelled j c) = ''job '' @ j @ '' wait cancelled: '' @ ctx_err_text c"
| "Error (JobEnded j s) = ''job '' @ j @ '' ended with status '' @ String s"
| "Error (BatchWaitCancelled c) = ''job batch wait cancelled: '' @ ctx_err_text c"
| "Error (ResultMissing j) = ''job '' @ j @ '' result missing in batch response''"
| "Error (JobsFailed ks) = ''one or more jobs failed or were cancelled: '' @ show_strings ks"
| "Error (JobNotFound j) = ''job '' @ j @ '' not found or deleted''"
| "Error (MarshalOutput j i m) =
     ''job '' @ j @ '': marshal output['' @ show_nat i @ '']: '' @ m"
| "Error (UnmarshalOutput j i m) =
     ''job '' @ j @ '': unmarshal output['' @ show_nat i @ '']: '' @ m"
| "Error (MarshalResult j m) = ''job '' @ j @ '': marshal result: '' @ m"
| "Error (UnmarshalResult j m) =
     ''job '' @ j @ '': unmarshal result as []AgentDatum: '' @ m"
| "Error (StatusesNotFound ms) = ''jobs not found in status response: '' @ show_strings ms"
| "Error (ResultsNotFound ms) = ''jobs not found in results response: '' @ show_strings ms"


text \<open>The loop over the keys detail, message, error returns at the first non-empty string.\<close>

fun findDetailString_loop :: "(string, json) gomap \<Rightarrow> string list \<Rightarrow> string" where
  "findDetailString_loop parsed [] = []"
| "findDetailString_loop parsed (key # keys) =
     (case map_of parsed key of
        Some (JString s) \<Rightarrow> if s \<noteq> [] then s else findDetailString_loop parsed keys
      | _ \<Rightarrow> findDetailString_loop parsed keys)"

definition findDetailString :: "(string, json) gomap \<Rightarrow> string" where
  "findDetailString parsed = findDetailString_loop parsed [''detail'', ''message'', ''error'']"

definition extractErrorDetail :: "golib \<Rightarrow> int \<Rightarrow> string \<Rightarrow> string \<times> (string, json) gomap" where
  "extractErrorDetail lib status body =
     (if length body = 0 then (''HTTP '' @ show_int status, [])
      else
        (let raw = strings_TrimSpace lib body;
             parsed = json_Unmarshal_map lib body;
             details = (case parsed of Some p \<Rightarrow> p | None \<Rightarrow> []);
             msg = (case parsed of Some p \<Rightarrow> findDetailString p | None \<Rightarrow> [])
         in if msg \<noteq> [] then (msg, details)
            else if raw \<noteq> [] then (raw, details)
            else (''HTTP '' @ show_int status, details)))"

definition parseRetryAfter :: "golib \<Rightarrow> Header option \<Rightarrow> duration option" where
  "parseRetryAfter lib headers =
     (case headers of
        None \<Rightarrow> None
      | Some h \<Rightarrow>
          (let val = h ''Retry-After''
           in if val = [] then None
              else (case Atoi val of
                      Some seconds \<Rightarrow> Some (wrap64 (seconds * Second))
                    | None \<Rightarrow>
                        (case http_ParseTime lib val of
                           Some t \<Rightarrow> Some (clamp64 (t - time_Now lib))
                         | None \<Rightarrow> None))))"

text \<open>The value of the local variable \<^verbatim>\<open>base\<close> of \<^verbatim>\<open>apiErrorFromResponse\<close>.\<close>

definition base_error :: "golib \<Rightarrow> int \<Rightarrow> string \<Rightarrow> Header option \<Rightarrow> string \<Rightarrow> APIError" where
  "base_error lib status body headers requestIDHeader =
     (let (message, details) = extractErrorDetail lib status body;
          requestID = (case headers of
                         Some h \<Rightarrow> if requestIDHeader \<noteq> [] then h requestIDHeader else []
                       | None \<Rightarrow> [])
      in \<lparr>StatusCode = status, Message = message, Body = body,
          RequestID = requestID, Details = details\<rparr>)"

definition apiErrorFromResponse ::
  "golib \<Rightarrow> int \<Rightarrow> string \<Rightarrow> Header option \<Rightarrow> string \<Rightarrow> error" where
  "apiErrorFromResponse lib status body headers requestIDHeader =
     (let base = base_error lib status body headers requestIDHeader
      in if status = 400 then BadRequestError base
         else if status = 401 then AuthenticationError base
         else if status = 402 then InsufficientCreditsError base
         else if status = 403 then ForbiddenError base
         else if status = 404 then NotFoundError base
         else if status = 429 then RateLimitError base (parseRetryAfter lib headers)
         else if status \<ge> 500 then ServerError base
         else PlainAPIError base)"

section \<open>Chunking helpers (agents\_api.go)\<close>

text \<open>\<^verbatim>\<open>const maxBatchSize = 1000\<close>\<close>

definition maxBatchSize :: int where
  "maxBatchSize = 1000"

text \<open>The Go slice expression \<^verbatim>\<open>items[i:end]\<close>, for \<open>i \<le> end \<le> len(items)\<close>.\<close>

definition subslice :: "'a list \<Rightarrow> nat \<Rightarrow> nat \<Rightarrow> 'a list" where
  "subslice items i e = take (e - i) (drop i items)"

text \<open>
  The loop \<^verbatim>\<open>for i := 0; i < len(items); i += size\<close> shared (textually) by
  \<^verbatim>\<open>chunkStrings\<close> and \<^verbatim>\<open>chunkAny\<close>. The loop is only entered with
  \<open>0 < size\<close>; the guard \<open>0 < sz\<close> repeats that fact so that the recursion is total.
  There \<open>size\<close> is below the length of the slice, so \<open>i + size\<close> stays below twice that
  length and within Go's \<^verbatim>\<open>int\<close>.
\<close>

function chunk_loop :: "'a list \<Rightarrow> nat \<Rightarrow> nat \<Rightarrow> 'a list list \<Rightarrow> 'a list list" where
  "chunk_loop items sz i chunks =
     (if i < length items \<and> 0 < sz then
        (let e = (if i + sz > length items then length items else i + sz)
         in chunk_loop items sz (i + sz) (chunks @ [subslice items i e]))
      else chunks)"
  by pat_completeness auto
termination
  by (relation "measure (\<lambda>(items, sz, i, chunks). length items - i)") auto

declare chunk_loop.simps [simp del]

definition chunkStrings :: "string list \<Rightarrow> int \<Rightarrow> string list list" where
  "chunkStrings items sz =
     (if sz \<le> 0 \<or> sz \<ge> int (length items) then [items]
      else chunk_loop items (nat sz) 0 [])"

definition chunkAny :: "'a list \<Rightarrow> int \<Rightarrow> 'a list list" where
  "chunkAny items sz =
     (if sz \<le> 0 \<or> sz \<ge> int (length items) then [items]
      else chunk_loop items (nat sz) 0 [])"

section \<open>Batch status and result retrieval (agents\_api.go)\<close>

text \<open>
  The remote endpoint behind \<^verbatim>\<open>postJSONWithContext\<close>: for the \<open>k\<close>-th call of one
  retrieval and the chunk of ids it posts, an error or the decoded response list. The
  response may hold any entries in any order.
\<close>

type_synonym 'e endpoint = "nat \<Rightarrow> string list \<Rightarrow> error + 'e list"

text \<open>\<^verbatim>\<open>for idx, id := range jobIDs { order[id] = idx }\<close>\<close>

fun build_order :: "string list \<Rightarrow> nat \<Rightarrow> (string, nat) gomap \<Rightarrow> (string, nat) gomap" where
  "build_order [] idx order = order"
| "build_order (i # ids) idx order = build_order ids (Suc idx) (AList.update i idx order)"

text \<open>\<^verbatim>\<open>received[id]\<close> on a \<^verbatim>\<open>map[string]bool\<close>: false for an absent key.\<close>

definition lookup_bool :: "(string, bool) gomap \<Rightarrow> string \<Rightarrow> bool" where
  "lookup_bool m k = (case map_of m k of Some b \<Rightarrow> b | None \<Rightarrow> False)"

text \<open>
  The body of \<^verbatim>\<open>for _, st := range resp\<close>, the same in both retrievals; \<open>idf\<close> reads the
  entry's \<^verbatim>\<open>ID\<close>. An index stored in \<open>order\<close> is below \<^verbatim>\<open>len(results)\<close>.
\<close>

definition place_entry ::
  "('e \<Rightarrow> string) \<Rightarrow> (string, nat) gomap \<Rightarrow> 'e \<Rightarrow> 'e list \<times> (string, bool) gomap
     \<Rightarrow> 'e list \<times> (string, bool) gomap" where
  "place_entry idf order st acc =
     (case map_of order (idf st) of
        Some idx \<Rightarrow> ((fst acc)[idx := st], AList.update (idf st) True (snd acc))
      | None \<Rightarrow> acc)"

text \<open>The loop over the chunks; it returns at the first failing call.\<close>

fun chunk_calls ::
  "('e \<Rightarrow> string) \<Rightarrow> (string, nat) gomap \<Rightarrow> 'e endpoint \<Rightarrow> nat \<Rightarrow> string list list
     \<Rightarrow> 'e list \<times> (string, bool) gomap \<Rightarrow> error + 'e list \<times> (string, bool) gomap" where
  "chunk_calls idf order post k [] acc = Inr acc"
| "chunk_calls idf order post k (chunk # rest) acc =
     (case post k chunk of
        Inl err \<Rightarrow> Inl err
      | Inr resp \<Rightarrow> chunk_calls idf order post (Suc k) rest (fold (place_entry idf order) resp acc))"

text \<open>
  The common text of \<^verbatim>\<open>RetrieveStatusManyWithContext\<close> and
  \<^verbatim>\<open>RetrieveResultManyWithContext\<close>, which differ in the entry type, the endpoint and the
  two error texts only.
\<close>

definition retrieve_many ::
  "('e \<Rightarrow> string) \<Rightarrow> (string \<Rightarrow> 'e) \<Rightarrow> string \<Rightarrow> (string list \<Rightarrow> error) \<Rightarrow> 'e endpoint
     \<Rightarrow> string list \<Rightarrow> error + 'e list" where
  "retrieve_many idf placeholder wrap_text not_found post jobIDs =
     (if length jobIDs = 0 then Inr []
      else
        (let order = build_order jobIDs 0 [];
             results = map placeholder jobIDs;
             received = []
         in case chunk_calls idf order post 0 (chunkStrings jobIDs maxBatchSize)
                   (results, received) of
              Inl err \<Rightarrow> Inl (Wrapped wrap_text err)
            | Inr (results', received') \<Rightarrow>
                (let missing = filter (\<lambda>i. \<not> lookup_bool received' i) jobIDs
                 in if length missing > 0 then Inl (not_found missing) else Inr results')))"

definition RetrieveStatusManyWithContext ::
  "AgentJobStatusBatch endpoint \<Rightarrow> string list \<Rightarrow> error + AgentJobStatusBatch list" where
  "RetrieveStatusManyWithContext post jobIDs =
     retrieve_many ID_sb status_placeholder ''retrieve job statuses'' StatusesNotFound post jobIDs"

definition RetrieveResultManyWithContext ::
  "AgentJobResultBatch endpoint \<Rightarrow> string list \<Rightarrow> error + AgentJobResultBatch list" where
  "RetrieveResultManyWithContext post jobIDs =
     retrieve_many ID_rb result_placeholder ''retrieve job results'' ResultsNotFound post jobIDs"

section \<open>Jobs and job batches (job.go)\<close>

subsection \<open>convertBatchResult\<close>

text \<open>
  The loop of the \<^verbatim>\<open>[]any\<close> case: each element is marshalled and unmarshalled into an
  \<^verbatim>\<open>AgentDatum\<close>; the first failure returns with the element's index.
\<close>

fun convert_elements ::
  "golib \<Rightarrow> string \<Rightarrow> nat \<Rightarrow> json list \<Rightarrow> AgentDatum list \<Rightarrow> error + AgentDatum list" where
  "convert_elements lib jid i [] outputs = Inr outputs"
| "convert_elements lib jid i (raw # data) outputs =
     (case json_Marshal lib raw of
        Inl err \<Rightarrow> Inl (MarshalOutput jid i err)
      | Inr datumBytes \<Rightarrow>
          (case json_Unmarshal_datum lib datumBytes of
             Inl err \<Rightarrow> Inl (UnmarshalOutput jid i err)
           | Inr datum \<Rightarrow> convert_elements lib jid (Suc i) data (outputs @ [datum])))"

text \<open>The type switch on \<^verbatim>\<open>res.Result\<close>.\<close>

definition convert_outputs :: "golib \<Rightarrow> AgentJobResultBatch \<Rightarrow> error + AgentDatum list" where
  "convert_outputs lib res =
     (case Result_rb res of
        JArray data \<Rightarrow> convert_elements lib (ID_rb res) 0 data []
      | JNull \<Rightarrow> Inr []
      | other \<Rightarrow>
          (case json_Marshal lib other of
             Inl err \<Rightarrow> Inl (MarshalResult (ID_rb res) err)
           | Inr bytes \<Rightarrow>
               (case json_Unmarshal_datums lib bytes of
                  Inl err \<Rightarrow> Inl (UnmarshalResult (ID_rb res) err)
                | Inr direct \<Rightarrow> Inr ([] @ direct))))"

definition convertBatchResult :: "golib \<Rightarrow> AgentJobResultBatch \<Rightarrow> error + AgentJobResult" where
  "convertBatchResult lib res =
     (if AgentID_rb res = None \<or> AgentVersionID_rb res = None
      then Inl (JobNotFound (ID_rb res))
      else
        (case convert_outputs lib res of
           Inl err \<Rightarrow> Inl err
         | Inr outputs \<Rightarrow>
             (let outputs' = (if length outputs = 0 \<and> length (Corrected_rb res) > 0
                              then Corrected_rb res else outputs)
              in Inr \<lparr>AgentID = the (AgentID_rb res),
                       AgentVersionID = the (AgentVersionID_rb res),
                       Inputs = Inputs_rb res,
                       InputTokens = InputTokens_rb res,
                       OutputTokens = OutputTokens_rb res,
                       Outputs = outputs'\<rparr>)))"

subsection \<open>Job\<close>

text \<open>
  A \<^verbatim>\<open>Job\<close>: its id, its timeout and whether its \<^verbatim>\<open>agentsAPI\<close> pointer is set. The remote
  is not part of the value: what it answers is given round by round below.
\<close>

record Job =
  agentsAPI :: bool
  jobID :: string
  timeout :: duration

definition newJob :: "bool \<Rightarrow> string \<Rightarrow> int \<Rightarrow> Job" where
  "newJob api jid timeoutSeconds =
     \<lparr>agentsAPI = api, jobID = jid,
      timeout = (if timeoutSeconds > 0 then wrap64 (timeoutSeconds * Second) else 7200 * Second)\<rparr>"

text \<open>
  One turn of the polling loop of \<^verbatim>\<open>Job.WaitContext\<close> as the environment decides it:
  whether the context is done at the top of the loop, what the status call and the result
  call return, and whether the context is done before the ticker fires in the
  \<^verbatim>\<open>select\<close> at the bottom. The interval and the timeout act through these only.
\<close>

record job_round =
  jr_done_top :: "ctx_err option"
  jr_status :: "error + AgentJobStatus"
  jr_result :: "error + AgentJobResult"
  jr_done_tick :: "ctx_err option"

definition Job_RetrieveStatusWithContext :: "Job \<Rightarrow> job_round \<Rightarrow> error + AgentJobStatus" where
  "Job_RetrieveStatusWithContext j rd =
     (if \<not> agentsAPI j then Inl AgentsAPINotSet else jr_status rd)"

definition Job_RetrieveResultWithContext :: "Job \<Rightarrow> job_round \<Rightarrow> error + AgentJobResult" where
  "Job_RetrieveResultWithContext j rd =
     (if \<not> agentsAPI j then Inl AgentsAPINotSet else jr_result rd)"

text \<open>
  \<^verbatim>\<open>Job.WaitContext\<close> returns a result together with an error (or nil). \<open>None\<close> is
  the loop still running when the given rounds end.
\<close>

fun Job_WaitContext :: "Job \<Rightarrow> job_round list \<Rightarrow> (AgentJobResult \<times> error option) option" where
  "Job_WaitContext j [] = None"
| "Job_WaitContext j (rd # rest) =
     (case jr_done_top rd of
        Some c \<Rightarrow> Some (AgentJobResult_zero, Some (JobWaitCancelled (jobID j) c))
      | None \<Rightarrow>
          (case Job_RetrieveStatusWithContext j rd of
             Inl err \<Rightarrow> Some (AgentJobResult_zero, Some err)
           | Inr status \<Rightarrow>
               if IsTerminal (Status status) then
                 (case Job_RetrieveResultWithContext j rd of
                    Inl err \<Rightarrow> Some (AgentJobResult_zero, Some err)
                  | Inr result \<Rightarrow>
                      if Status status = JobFailure \<or> Status status = JobCancelled
                      then Some (result, Some (JobEnded (jobID j) (Status status)))
                      else Some (result, None))
               else
                 (case jr_done_tick rd of
                    Some c \<Rightarrow> Some (AgentJobResult_zero, Some (JobWaitCancelled (jobID j) c))
                  | None \<Rightarrow> Job_WaitContext j rest)))"

subsection \<open>JobBatch\<close>

text \<open>
  A \<^verbatim>\<open>JobBatch\<close>: its job ids in the order of submission, its timeout and its two maps.
  Its \<^verbatim>\<open>agentsAPI\<close> pointer is left out: the fields are unexported, and a batch that holds
  job ids was built by \<^verbatim>\<open>newJobBatch\<close> from the \<^verbatim>\<open>AgentsAPI\<close> that submitted them.
\<close>

record JobBatch =
  jobIDs :: "string list"
  timeout_b :: duration
  statuses :: "(string, JobStatus) gomap"
  completed :: "(string, AgentJobResult) gomap"

definition newJobBatch :: "string list \<Rightarrow> int \<Rightarrow> JobBatch" where
  "newJobBatch ids timeoutSeconds =
     \<lparr>jobIDs = ids,
      timeout_b = (if timeoutSeconds > 0 then wrap64 (timeoutSeconds * Second) else 7200 * Second),
      statuses = [], completed = []\<rparr>"

text \<open>
  \<^verbatim>\<open>removeCompleted\<close>: the set of completed ids is built as a map to the empty struct,
  then the pending ids outside it are kept in order.
\<close>

definition removeCompleted :: "string list \<Rightarrow> string list \<Rightarrow> string list" where
  "removeCompleted pending done =
     (if length done = 0 then pending
      else (let completedSet = fold (\<lambda>i m. AList.update i () m) done []
            in filter (\<lambda>i. map_of completedSet i = None) pending))"

text \<open>
  \<^verbatim>\<open>mapKeys\<close>: the keys of the map, appended in the order in which \<^verbatim>\<open>range\<close> visits
  them, which Go leaves open.
\<close>

definition mapKeys :: "golib \<Rightarrow> (string, JobStatus) gomap \<Rightarrow> string list" where
  "mapKeys lib m = map_range lib (map fst m)"

text \<open>
  One turn of the polling loop of \<^verbatim>\<open>JobBatch.WaitContext\<close> as the environment decides
  it: the context at the top of the loop, the two batch endpoints, and the context in the
  \<^verbatim>\<open>select\<close> at the bottom.
\<close>

record batch_round =
  br_done_top :: "ctx_err option"
  br_statuses :: "AgentJobStatusBatch endpoint"
  br_results :: "AgentJobResultBatch endpoint"
  br_done_tick :: "ctx_err option"

text \<open>The body of \<^verbatim>\<open>for _, st := range statusBatch\<close>, on \<^verbatim>\<open>b.statuses\<close> and \<^verbatim>\<open>ready\<close>.\<close>

definition note_status ::
  "AgentJobStatusBatch \<Rightarrow> (string, JobStatus) gomap \<times> string list
     \<Rightarrow> (string, JobStatus) gomap \<times> string list" where
  "note_status st acc =
     (case Status_sb st of
        None \<Rightarrow> acc
      | Some s \<Rightarrow>
          (AList.update (ID_sb st) s (fst acc),
           if IsTerminal s then snd acc @ [ID_sb st] else snd acc))"

text \<open>
  The loop \<^verbatim>\<open>for _, res := range resultsBatch\<close>, on \<^verbatim>\<open>received\<close>, \<^verbatim>\<open>b.completed\<close> and
  \<^verbatim>\<open>failures\<close>. A conversion error returns at once; what the earlier entries stored in
  \<^verbatim>\<open>b.completed\<close> stays stored.
\<close>

fun store_results ::
  "golib \<Rightarrow> (string, JobStatus) gomap \<Rightarrow> AgentJobResultBatch list
     \<Rightarrow> (string, AgentJobResult) gomap \<times> (string, AgentJobResult) gomap \<times> (string, JobStatus) gomap
     \<Rightarrow> ((string, AgentJobResult) gomap \<times> (string, AgentJobResult) gomap \<times> (string, JobStatus) gomap)
         \<times> error option" where
  "store_results lib sts [] acc = (acc, None)"
| "store_results lib sts (res # rest) (received, compl, failures) =
     (case convertBatchResult lib res of
        Inl err \<Rightarrow> ((received, compl, failures), Some err)
      | Inr converted \<Rightarrow>
          store_results lib sts rest
            (AList.update (ID_rb res) converted received,
             AList.update (ID_rb res) converted compl,
             (case map_of sts (ID_rb res) of
                Some status \<Rightarrow>
                  if status = JobFailure \<or> status = JobCancelled
                  then AList.update (ID_rb res) status failures else failures
              | None \<Rightarrow> failures)))"

text \<open>The first ready id without a received result, if there is one.\<close>

definition first_missing :: "(string, AgentJobResult) gomap \<Rightarrow> string list \<Rightarrow> string option" where
  "first_missing received ready = find (\<lambda>i. map_of received i = None) ready"

text \<open>The code after the loop: the results in the order of \<^verbatim>\<open>b.jobIDs\<close>, and the failures.\<close>

definition assemble ::
  "golib \<Rightarrow> JobBatch \<Rightarrow> (string, JobStatus) gomap \<Rightarrow> AgentJobResult list \<times> error option" where
  "assemble lib b failures =
     (let results = concat (map (\<lambda>i. case map_of (completed b) i of
                                       Some res \<Rightarrow> [res] | None \<Rightarrow> []) (jobIDs b))
      in if length failures > 0 then (results, Some (JobsFailed (mapKeys lib failures)))
         else (results, None))"

text \<open>
  What one turn of the loop body does to the loop: it returns from \<^verbatim>\<open>WaitContext\<close>
  (always with nil results and an error), it leaves the loop by \<^verbatim>\<open>break\<close>, or it goes
  on to the next turn. The last two carry the batch, \<^verbatim>\<open>pending\<close> and \<^verbatim>\<open>failures\<close>.
\<close>

datatype batch_step =
    Return JobBatch "AgentJobResult list" "error option"
  | Break JobBatch "string list" "(string, JobStatus) gomap"
  | Continue JobBatch "string list" "(string, JobStatus) gomap"

text \<open>
  The end of the loop body: \<^verbatim>\<open>if len(pending) == 0 { break }\<close> and the \<^verbatim>\<open>select\<close> on
  the context and the ticker.
\<close>

definition end_of_round ::
  "batch_round \<Rightarrow> JobBatch \<Rightarrow> string list \<Rightarrow> (string, JobStatus) gomap \<Rightarrow> batch_step" where
  "end_of_round rd b pending failures =
     (if length pending = 0 then Break b pending failures
      else (case br_done_tick rd of
              Some c \<Rightarrow> Return b [] (Some (BatchWaitCancelled c))
            | None \<Rightarrow> Continue b pending failures))"

text \<open>
  The loop body. The batch's two maps are updated in place, so the batch is returned as
  the body leaves it, also when it returns an error.
\<close>

definition poll_round ::
  "golib \<Rightarrow> batch_round \<Rightarrow> JobBatch \<Rightarrow> string list \<Rightarrow> (string, JobStatus) gomap
     \<Rightarrow> batch_step" where
  "poll_round lib rd b pending failures =
     (case br_done_top rd of
        Some c \<Rightarrow> Return b [] (Some (BatchWaitCancelled c))
      | None \<Rightarrow>
          (case RetrieveStatusManyWithContext (br_statuses rd) pending of
             Inl err \<Rightarrow> Return b [] (Some err)
           | Inr statusBatch \<Rightarrow>
               (let (sts, ready) = fold note_status statusBatch (statuses b, []);
                    b1 = b\<lparr>statuses := sts\<rparr>
                in if length ready > 0 then
                     (case RetrieveResultManyWithContext (br_results rd) ready of
                        Inl err \<Rightarrow> Return b1 [] (Some err)
                      | Inr resultsBatch \<Rightarrow>
                          (case store_results lib sts resultsBatch ([], completed b1, failures) of
                             ((received, compl, failures'), Some err) \<Rightarrow>
                               Return (b1\<lparr>completed := compl\<rparr>) [] (Some err)
                           | ((received, compl, failures'), None) \<Rightarrow>
                               (let b2 = b1\<lparr>completed := compl\<rparr>
                                in case first_missing received ready of
                                     Some i \<Rightarrow> Return b2 [] (Some (ResultMissing i))
                                   | None \<Rightarrow>
                                       end_of_round rd b2 (removeCompleted pending ready)
                                         failures')))
                   else end_of_round rd b1 pending failures)))"

text \<open>
  The polling loop \<^verbatim>\<open>for len(pending) > 0\<close> and the code after it. It returns the batch
  as it is left, the results (nil is \<open>[]\<close>) and the error; \<open>None\<close> is the loop still
  running when the given rounds end.
\<close>

fun wait_loop ::
  "golib \<Rightarrow> batch_round list \<Rightarrow> JobBatch \<Rightarrow> string list \<Rightarrow> (string, JobStatus) gomap
     \<Rightarrow> (JobBatch \<times> AgentJobResult list \<times> error option) option" where
  "wait_loop lib [] b pending failures =
     (if length pending > 0 then None else Some (b, assemble lib b failures))"
| "wait_loop lib (rd # rest) b pending failures =
     (if length pending > 0 then
        (case poll_round lib rd b pending failures of
           Return b' results err \<Rightarrow> Some (b', results, err)
         | Break b' pending' failures' \<Rightarrow> Some (b', assemble lib b' failures')
         | Continue b' pending' failures' \<Rightarrow> wait_loop lib rest b' pending' failures')
      else Some (b, assemble lib b failures))"

definition JobBatch_WaitContext ::
  "golib \<Rightarrow> JobBatch \<Rightarrow> batch_round list
     \<Rightarrow> (JobBatch \<times> AgentJobResult list \<times> error option) option" where
  "JobBatch_WaitContext lib b rounds = wait_loop lib rounds b ([] @ jobIDs b) []"

section \<open>Retrying transport (the HTTP client)\<close>







section \<open>Sample values for the examples\<close>

text \<open>
  What the standard library does on the documents used in the examples below, as finite
  tables: the JSON texts it decodes into maps, the values it marshals (object keys in
  sorted order), the texts it decodes into an \<^verbatim>\<open>AgentDatum\<close>, and one HTTP date. A text
  outside the tables is rejected. \<^verbatim>\<open>TrimSpace\<close> trims the ASCII spaces, which is all of it
  on ASCII text. The keys of a map are visited in the order of their insertion, one of the
  orders a run can meet.
\<close>

definition sample_datum :: "string \<Rightarrow> AgentDatum" where
  "sample_datum v =
     \<lparr>Key = ''out'', Description = [], DataType = ''text/plain'', Value = v, Cost = None\<rparr>"

definition sample_datum_json :: "string \<Rightarrow> json" where
  "sample_datum_json v =
     JObject [(''key'', JString ''out''), (''value'', JString v),
              (''description'', JString []), (''data_type'', JString ''text/plain'')]"

definition sample_datum_text :: "string \<Rightarrow> string" where
  \<open>sample_datum_text v =
     ''{"data_type":"text/plain","description":"","key":"out","value":"'' @ v @ ''"}''\<close>

definition sample_values :: "string list" where
  "sample_values = [''first'', ''second'', ''third'']"

definition is_space :: "char \<Rightarrow> bool" where
  "is_space c = (c \<in> set [CHR '' '', CHR 0x09, CHR 0x0A, CHR 0x0B, CHR 0x0C, CHR 0x0D])"

definition sample_lib :: golib where
  \<open>sample_lib =
     \<lparr>json_Unmarshal_map =
        map_of [(''{"references":["https://x/references/abc123/"]}'',
                   [(''references'', JArray [JString ''https://x/references/abc123/''])]),
                (''{"references":["https://x/references/a1",7]}'',
                   [(''references'', JArray [JString ''https://x/references/a1'', JNumber ''7''])]),
                (''{"detail":"slow down"}'', [(''detail'', JString ''slow down'')]),
                (''null'', [])],
      json_Marshal =
        (\<lambda>j. case map_of (map (\<lambda>v. (sample_datum_json v, sample_datum_text v)) sample_values) j of
               Some t \<Rightarrow> Inr t
             | None \<Rightarrow> Inl ''json: unsupported value''),
      json_Unmarshal_datum =
        (\<lambda>t. case map_of (map (\<lambda>v. (sample_datum_text v, sample_datum v)) sample_values) t of
               Some d \<Rightarrow> Inr d
             | None \<Rightarrow> Inl ''json: cannot unmarshal''),
      json_Unmarshal_datums = (\<lambda>t. Inl ''json: cannot unmarshal into []AgentDatum''),
      strings_TrimSpace = (\<lambda>s. rev (dropWhile is_space (rev (dropWhile is_space s)))),
      http_ParseTime =
        map_of [(''Wed, 21 Oct 2015 07:28:00 GMT'', 1445412480 * Second)],
      time_Now = 1445412450 * Second,
      map_range = (\<lambda>ks. ks)\<rparr>\<close>

definition hdr_of :: "(string \<times> string) list \<Rightarrow> Header" where
  "hdr_of kvs = (\<lambda>k. case map_of kvs k of Some v \<Rightarrow> v | None \<Rightarrow> [])"

definition sample_entry ::
  "string \<Rightarrow> string option \<Rightarrow> string option \<Rightarrow> json \<Rightarrow> AgentJobResultBatch" where
  "sample_entry i a v r =
     \<lparr>ID_rb = i, Status_rb = None, Result_rb = r, Corrected_rb = [], AgentID_rb = a,
      AgentVersionID_rb = v, Cost_rb = None, Inputs_rb = [], InputTokens_rb = None,
      OutputTokens_rb = None\<rparr>"

definition sample_status :: "JobStatus \<Rightarrow> AgentJobStatus" where
  "sample_status s = \<lparr>Status = s, Timestamp = 0, ErrorMessage = None\<rparr>"

definition sample_result :: "string \<Rightarrow> AgentJobResult" where
  "sample_result v =
     \<lparr>AgentID = ''agent'', AgentVersionID = ''v1'', Inputs = [], InputTokens = None,
      OutputTokens = None, Outputs = [sample_datum v]\<rparr>"

definition sample_job_round :: "JobStatus \<Rightarrow> string \<Rightarrow> job_round" where
  "sample_job_round s v =
     \<lparr>jr_done_top = None, jr_status = Inr (sample_status s),
      jr_result = Inr (sample_result v), jr_done_tick = None\<rparr>"

definition sample_value_datum :: "string \<Rightarrow> AgentDatum" where
  "sample_value_datum v =
     \<lparr>Key = ''refs'', Description = [], DataType = ''text/plain'', Value = v, Cost = None\<rparr>"

definition sample_result_of :: "AgentDatum list \<Rightarrow> AgentJobResult" where
  "sample_result_of outs =
     \<lparr>AgentID = ''agent'', AgentVersionID = ''v1'', Inputs = [], InputTokens = None,
      OutputTokens = None, Outputs = outs\<rparr>"



text \<open>Batch entries, endpoints and ids for the examples of batch retrieval.\<close>

definition sample_status_entry :: "string \<Rightarrow> JobStatus \<Rightarrow> AgentJobStatusBatch" where
  "sample_status_entry i s =
     \<lparr>ID_sb = i, Status_sb = Some s, CreatedAt_sb = JNull, LastUpdatedAt_sb = JNull\<rparr>"

definition answer_with :: "'e list \<Rightarrow> 'e endpoint" where
  "answer_with entries = (\<lambda>k chunk. Inr entries)"

definition sample_ids :: "string list" where
  "sample_ids = [''job-1'', ''job-2'', ''job-3'']"

definition sample_status_response :: "AgentJobStatusBatch list" where
  "sample_status_response =
     [sample_status_entry ''job-2'' JobSuccess, sample_status_entry ''job-x'' JobFailure,
      sample_status_entry ''job-1'' JobStarted, sample_status_entry ''job-3'' JobCached]"

definition sample_result_response :: "AgentJobResultBatch list" where
  "sample_result_response =
     [sample_entry ''job-2'' (Some ''agent'') (Some ''v1'') (JArray [sample_datum_json ''second'']),
      sample_entry ''job-1'' (Some ''agent'') (Some ''v1'') (JArray [sample_datum_json ''first''])]"

text \<open>Rounds for the examples of \<^verbatim>\<open>JobBatch.WaitContext\<close>.\<close>

definition echo_statuses :: "JobStatus \<Rightarrow> AgentJobStatusBatch endpoint" where
  "echo_statuses s = (\<lambda>k chunk. Inr (map (\<lambda>i. sample_status_entry i s) chunk))"

definition sample_batch_results :: "AgentJobResultBatch list" where
  "sample_batch_results =
     [sample_entry ''job-2'' (Some ''agent'') (Some ''v1'') (JArray [sample_datum_json ''second'']),
      sample_entry ''job-1'' (Some ''agent'') (Some ''v1'') (JArray [sample_datum_json ''first'']),
      sample_entry ''job-3'' (Some ''agent'') (Some ''v1'') (JArray [sample_datum_json ''third''])]"

definition sample_batch_round :: batch_round where
  "sample_batch_round =
     \<lparr>br_done_top = None, br_statuses = echo_statuses JobSuccess,
      br_results = answer_with sample_batch_results, br_done_tick = None\<rparr>"

definition sample_early_round :: batch_round where
  "sample_early_round =
     \<lparr>br_done_top = None,
      br_statuses = (\<lambda>k chunk. Inr (map (\<lambda>i. sample_status_entry i
                        (if i = ''job-2'' then JobFailure else JobStarted)) chunk)),
      br_results = answer_with sample_batch_results, br_done_tick = None\<rparr>"

section \<open>Predicates used in the statements\<close>

text \<open>
  A round of \<^verbatim>\<open>Job.WaitContext\<close> in which the context is not done, the status call
  succeeds with a status that is not terminal, and the ticker fires before the context is
  done: the loop goes on to its next turn.
\<close>

definition quiet_round :: "job_round \<Rightarrow> bool" where
  "quiet_round rd =
     (jr_done_top rd = None
      \<and> (case jr_status rd of Inr st \<Rightarrow> \<not> IsTerminal (Status st) | Inl err \<Rightarrow> False)
      \<and> jr_done_tick rd = None)"


text \<open>The last position at which a value occurs in a list, if it occurs.\<close>

fun last_pos :: "'a list \<Rightarrow> 'a \<Rightarrow> nat option" where
  "last_pos [] x = None"
| "last_pos (y # ys) x =
     (case last_pos ys x of
        Some n \<Rightarrow> Some (Suc n)
      | None \<Rightarrow> if x = y then Some 0 else None)"

text \<open>
  The responses of the endpoint to the chunks of one retrieval, one after the other, when
  every call succeeds; the error of the first failing call otherwise.
\<close>

fun combined_responses :: "'e endpoint \<Rightarrow> nat \<Rightarrow> string list list \<Rightarrow> error + 'e list" where
  "combined_responses post k [] = Inr []"
| "combined_responses post k (chunk # rest) =
     (case post k chunk of
        Inl err \<Rightarrow> Inl err
      | Inr resp \<Rightarrow>
          (case combined_responses post (Suc k) rest of
             Inl err \<Rightarrow> Inl err
           | Inr more_resp \<Rightarrow> Inr (resp @ more_resp)))"

text \<open>The endpoint with every entry whose id was not requested removed from its responses.\<close>

definition only_requested :: "('e \<Rightarrow> string) \<Rightarrow> string list \<Rightarrow> 'e endpoint \<Rightarrow> 'e endpoint" where
  "only_requested idf ids post =
     (\<lambda>k chunk. case post k chunk of
                   Inl err \<Rightarrow> Inl err
                 | Inr resp \<Rightarrow> Inr (filter (\<lambda>e. idf e \<in> set ids) resp))"

text \<open>
  The entry that ends up at index \<open>i\<close>: the last response entry whose id has its last
  position in the request at \<open>i\<close>, or else the placeholder put there at the start.
\<close>

definition placed :: "('e \<Rightarrow> string) \<Rightarrow> (string \<Rightarrow> 'e) \<Rightarrow> string list \<Rightarrow> 'e list \<Rightarrow> nat \<Rightarrow> 'e" where
  "placed idf placeholder ids combined i =
     (case find (\<lambda>e. last_pos ids (idf e) = Some i) (rev combined) of
        Some e \<Rightarrow> e
      | None \<Rightarrow> placeholder (ids ! i))"

text \<open>
  The errors with which \<^verbatim>\<open>JobBatch.WaitContext\<close> completes: none, or the aggregate error of
  failed and cancelled jobs. Every other error is a cancellation, a failed fetch, a
  failed conversion or a missing result.
\<close>

definition completes :: "error option \<Rightarrow> bool" where
  "completes err = (case err of None \<Rightarrow> True | Some (JobsFailed ks) \<Rightarrow> True | Some other \<Rightarrow> False)"

text \<open>A batch-result entry that the result endpoint returned in one of the given rounds.\<close>

definition delivered :: "batch_round set \<Rightarrow> AgentJobResultBatch \<Rightarrow> bool" where
  "delivered rds e = (\<exists>rd \<in> rds. \<exists>k chunk resp. br_results rd k chunk = Inr resp \<and> e \<in> set resp)"

text \<open>
  The invariant of the polling loop, for a property \<open>G\<close> of the stored results: the batch
  keeps its ids, and every id that is no longer pending has a completed result with \<open>G\<close>.
\<close>

definition batch_inv ::
  "(string \<Rightarrow> AgentJobResult \<Rightarrow> bool) \<Rightarrow> string list \<Rightarrow> JobBatch \<Rightarrow> string list \<Rightarrow> bool" where
  "batch_inv G ids b pending =
     (jobIDs b = ids
      \<and> (\<forall>i \<in> set ids. i \<in> set pending \<or> (\<exists>v. map_of (completed b) i = Some v \<and> G i v)))"

section \<open>Properties of chunking\<close>

lemma ceil_step:
  fixes k sz :: nat
  assumes "0 < sz"
  shows "Suc ((Suc k - sz + sz - 1) div sz) = (Suc k + sz - 1) div sz"
proof -
  have r: "(Suc k + sz - 1) div sz = Suc (k div sz)" using assms by simp
  show ?thesis
  proof (cases "sz \<le> Suc k")
    case True
    then show ?thesis using r by simp
  next
    case False
    then show ?thesis using r assms by simp
  qed
qed

lemma neg_div_ceil:
  fixes a b :: int
  assumes "0 < b"
  shows "- (- a div b) = (a + b - 1) div b"
proof -
  have eq: "a + b - 1 = (a div b) * b + (a mod b + b - 1)" by simp
  have split: "(a + b - 1) div b = a div b + (a mod b + b - 1) div b"
    by (subst eq) (use assms in \<open>simp only: div_mult_self3\<close>)
  show ?thesis
  proof (cases "a mod b = 0")
    case True
    then show ?thesis using split assms by (simp add: zdiv_zminus1_eq_if)
  next
    case False
    have p: "0 < a mod b" using False assms by (simp add: order_less_le)
    have q: "a mod b < b" using assms by simp
    have "(a mod b + b - 1) div b = 1"
      using p q by (simp add: int_div_pos_eq)
    then show ?thesis using split False assms by (simp add: zdiv_zminus1_eq_if)
  qed
qed

lemma chunk_loop_concat:
  "0 < sz \<Longrightarrow> concat (chunk_loop items sz i chunks) = concat chunks @ drop i items"
proof (induction items sz i chunks rule: chunk_loop.induct)
  case (1 items sz i chunks)
  show ?case
  proof (cases "i < length items")
    case True
    have d: "take sz (drop i items) @ drop (i + sz) items = drop i items"
      by (metis add.commute append_take_drop_id drop_drop)
    show ?thesis
    proof (cases "i + sz > length items")
      case True
      with \<open>i < length items\<close> 1 show ?thesis
        by (subst chunk_loop.simps) (simp add: subslice_def)
    next
      case False
      with \<open>i < length items\<close> 1 d show ?thesis
        by (subst chunk_loop.simps) (simp add: subslice_def)
    qed
  next
    case False
    then show ?thesis
      by (subst chunk_loop.simps) simp
  qed
qed

lemma chunk_loop_sizes:
  "0 < sz \<Longrightarrow> \<forall>c \<in> set chunks. length c \<le> sz \<and> c \<noteq> [] \<Longrightarrow>
     \<forall>c \<in> set (chunk_loop items sz i chunks). length c \<le> sz \<and> c \<noteq> []"
proof (induction items sz i chunks rule: chunk_loop.induct)
  case (1 items sz i chunks)
  show ?case
  proof (cases "i < length items")
    case True
    let ?e = "if i + sz > length items then length items else i + sz"
    have s: "length (subslice items i ?e) \<le> sz \<and> subslice items i ?e \<noteq> []"
      using True 1(2) by (auto simp: subslice_def)
    have "\<forall>c \<in> set (chunk_loop items sz (i + sz) (chunks @ [subslice items i ?e])). length c \<le> sz \<and> c \<noteq> []"
      using 1(1)[OF _ refl] True 1(2,3) s by auto
    then show ?thesis
      using True 1(2) by (subst chunk_loop.simps) (simp add: Let_def)
  next
    case False
    then show ?thesis
      using 1(3) by (subst chunk_loop.simps) simp
  qed
qed

lemma chunk_loop_length:
  "0 < sz \<Longrightarrow>
     length (chunk_loop items sz i chunks) = length chunks + (length items - i + sz - 1) div sz"
proof (induction items sz i chunks rule: chunk_loop.induct)
  case (1 items sz i chunks)
  show ?case
  proof (cases "i < length items")
    case True
    let ?e = "if i + sz > length items then length items else i + sz"
    obtain k where k: "length items - i = Suc k"
      using True by (metis Suc_diff_Suc)
    have ih: "length (chunk_loop items sz (i + sz) (chunks @ [subslice items i ?e]))
                = Suc (length chunks) + (length items - (i + sz) + sz - 1) div sz"
      using 1(1)[OF _ refl] True 1(2) by simp
    have "length items - (i + sz) = Suc k - sz" using k by simp
    then have ar: "Suc ((length items - (i + sz) + sz - 1) div sz) = (length items - i + sz - 1) div sz"
      using ceil_step[OF 1(2), of k] k by simp
    have "length (chunk_loop items sz i chunks)
            = length (chunk_loop items sz (i + sz) (chunks @ [subslice items i ?e]))"
      using True 1(2) by (subst chunk_loop.simps) (simp add: Let_def)
    then show ?thesis using ih ar by simp
  next
    case False
    then have "length items - i + sz - 1 < sz" using 1(2) by simp
    then have "(length items - i + sz - 1) div sz = 0" by simp
    then show ?thesis
      using False by (subst chunk_loop.simps) simp
  qed
qed

lemma chunkAny_single:
  "sz \<le> 0 \<or> sz \<ge> int (length items) \<Longrightarrow> chunkAny items sz = [items]"
  by (simp add: chunkAny_def)

lemma chunkAny_concat: "concat (chunkAny items sz) = items"
  by (simp add: chunkAny_def chunk_loop_concat)

lemma chunkAny_sizes:
  "0 < sz \<Longrightarrow> c \<in> set (chunkAny items sz) \<Longrightarrow> length c \<le> nat sz"
  using chunk_loop_sizes[of "nat sz" "[]" items 0]
  by (auto simp: chunkAny_def split: if_splits)

lemma chunkAny_length:
  assumes "0 < sz" "sz < int (length items)"
  shows "int (length (chunkAny items sz)) = \<lceil>real (length items) / real_of_int sz\<rceil>"
proof -
  have "length (chunkAny items sz) = (length items + nat sz - 1) div nat sz"
    using assms by (simp add: chunkAny_def chunk_loop_length)
  then have "int (length (chunkAny items sz)) = (int (length items) + sz - 1) div sz"
    using assms by (simp add: zdiv_int of_nat_diff)
  also have "\<dots> = - (- int (length items) div sz)"
    using neg_div_ceil[OF assms(1)] by simp
  also have "\<dots> = \<lceil>of_int (int (length items)) / of_int sz\<rceil>"
    by (simp only: ceiling_divide_eq_div)
  finally show ?thesis by simp
qed

lemma chunkStrings_chunkAny: "chunkStrings items sz = chunkAny items sz"
  by (simp add: chunkStrings_def chunkAny_def)

text \<open>
  Claim C8. For a list of \<open>N\<close> items and a chunk size \<open>S\<close> with \<open>0 < S < N\<close>, chunking
  yields \<open>ceil (N / S)\<close> chunks, each of at most \<open>S\<close> items, whose concatenation is the list;
  for \<open>S \<le> 0\<close> or \<open>S \<ge> N\<close> it yields the one chunk of all items, an empty chunk for the
  empty list. \<^verbatim>\<open>chunkStrings\<close> and \<^verbatim>\<open>chunkAny\<close> agree, and with the batch constant 1000 no
  chunk exceeds 1000 items and the concatenation is still the list.
\<close>

theorem chunking_C8:
  fixes items :: "'a list" and strs :: "string list"
  shows
    "(0 < S \<and> S < int (length items) \<longrightarrow>
        int (length (chunkAny items S)) = \<lceil>real (length items) / real_of_int S\<rceil>
        \<and> (\<forall>c \<in> set (chunkAny items S). length c \<le> nat S)
        \<and> concat (chunkAny items S) = items)
     \<and> (S \<le> 0 \<or> S \<ge> int (length items) \<longrightarrow> chunkAny items S = [items])
     \<and> chunkAny ([] :: 'a list) S = [[]]
     \<and> chunkStrings strs S = chunkAny strs S
     \<and> (\<forall>c \<in> set (chunkAny items maxBatchSize). length c \<le> 1000)
     \<and> concat (chunkAny items maxBatchSize) = items"
proof -
  have big: "\<forall>c \<in> set (chunkAny items maxBatchSize). length c \<le> 1000"
  proof
    fix c assume c: "c \<in> set (chunkAny items maxBatchSize)"
    show "length c \<le> 1000"
    proof (cases "maxBatchSize \<ge> int (length items)")
      case True
      then show ?thesis using c by (simp add: chunkAny_def maxBatchSize_def)
    next
      case False
      then show ?thesis using chunkAny_sizes[OF _ c] by (simp add: maxBatchSize_def)
    qed
  qed
  show ?thesis
  proof (intro conjI impI)
    assume a: "0 < S \<and> S < int (length items)"
    then show "int (length (chunkAny items S)) = \<lceil>real (length items) / real_of_int S\<rceil>"
      by (simp add: chunkAny_length)
    show "\<forall>c \<in> set (chunkAny items S). length c \<le> nat S"
      using a chunkAny_sizes[of S _ items] by blast
  next
    show "concat (chunkAny items S) = items" by (rule chunkAny_concat)
  next
    assume "S \<le> 0 \<or> S \<ge> int (length items)"
    then show "chunkAny items S = [items]" by (rule chunkAny_single)
  next
    show "chunkAny ([] :: 'a list) S = [[]]" by (rule chunkAny_single) (simp, arith)
  next
    show "chunkStrings strs S = chunkAny strs S" by (rule chunkStrings_chunkAny)
  next
    show "\<forall>c \<in> set (chunkAny items maxBatchSize). length c \<le> 1000" by (rule big)
  next
    show "concat (chunkAny items maxBatchSize) = items" by (rule chunkAny_concat)
  qed
qed

text \<open>Five items in chunks of two, and the two single-chunk cases on three items.\<close>

theorem chunking_C8_witness:
  "int (length (chunkAny [1,2,3,4,5::nat] 2)) = \<lceil>real (length [1,2,3,4,5::nat]) / real_of_int 2\<rceil>
   \<and> chunkAny [1,2,3,4,5::nat] 2 = [[1,2],[3,4],[5]]
   \<and> chunkAny [1,2,3::nat] 0 = [[1,2,3]]
   \<and> chunkAny [1,2,3::nat] 3 = [[1,2,3]]
   \<and> chunkStrings [''a'', ''b'', ''c''] 2 = [[''a'', ''b''], [''c'']]"
proof -
  have e: "chunkAny [1,2,3,4,5::nat] 2 = [[1,2],[3,4],[5]]"
    by (simp add: chunkAny_def chunk_loop.simps subslice_def)
  have s: "chunkStrings [''a'', ''b'', ''c''] 2 = [[''a'', ''b''], [''c'']]"
    by (simp add: chunkStrings_def chunk_loop.simps subslice_def)
  show ?thesis
    using chunking_C8[of 2 "[1,2,3,4,5::nat]" "[''a'', ''b'', ''c'']"]
          chunking_C8[of 0 "[1,2,3::nat]" "[]"] chunking_C8[of 3 "[1,2,3::nat]" "[]"] e s
    by simp
qed

section \<open>Properties of the error taxonomy\<close>

text \<open>
  Claim C4. For every status code, body and header set, \<^verbatim>\<open>apiErrorFromResponse\<close> returns the
  one error whose variant the status fixes: 400 BadRequest, 401 Authentication,
  402 InsufficientCredits, 403 Forbidden, 404 NotFound, 429 RateLimit, every status from
  500 on ServerError, and every other status the plain \<^verbatim>\<open>APIError\<close>; the error carries the
  status and the body.
\<close>

theorem apiErrorFromResponse_C4:
  "(status = 400 \<longrightarrow> apiErrorFromResponse lib status body hdr rid = BadRequestError (base_error lib status body hdr rid))
 \<and> (status = 401 \<longrightarrow> apiErrorFromResponse lib status body hdr rid = AuthenticationError (base_error lib status body hdr rid))
 \<and> (status = 402 \<longrightarrow> apiErrorFromResponse lib status body hdr rid = InsufficientCreditsError (base_error lib status body hdr rid))
 \<and> (status = 403 \<longrightarrow> apiErrorFromResponse lib status body hdr rid = ForbiddenError (base_error lib status body hdr rid))
 \<and> (status = 404 \<longrightarrow> apiErrorFromResponse lib status body hdr rid = NotFoundError (base_error lib status body hdr rid))
 \<and> (status = 429 \<longrightarrow> apiErrorFromResponse lib status body hdr rid =
        RateLimitError (base_error lib status body hdr rid) (parseRetryAfter lib hdr))
 \<and> (status \<ge> 500 \<longrightarrow> apiErrorFromResponse lib status body hdr rid = ServerError (base_error lib status body hdr rid))
 \<and> (status \<notin> {400, 401, 402, 403, 404, 429} \<and> status < 500 \<longrightarrow>
        apiErrorFromResponse lib status body hdr rid = PlainAPIError (base_error lib status body hdr rid))
 \<and> StatusCode (base_error lib status body hdr rid) = status
 \<and> Body (base_error lib status body hdr rid) = body"
  by (simp add: apiErrorFromResponse_def base_error_def Let_def split: prod.splits)

lemma sample_base:
  \<open>base_error sample_lib 404 ''{"detail":"slow down"}'' None ''X-Request-ID'' =
     \<lparr>StatusCode = 404, Message = ''slow down'', Body = ''{"detail":"slow down"}'', RequestID = [],
      Details = [(''detail'', JString ''slow down'')]\<rparr>\<close>
  by (simp add: base_error_def extractErrorDetail_def sample_lib_def findDetailString_def)

text \<open>A 404 with a JSON body, a 418 and a 503 without a body.\<close>

theorem apiErrorFromResponse_C4_witness:
  \<open>apiErrorFromResponse sample_lib 404 ''{"detail":"slow down"}'' None ''X-Request-ID'' =
     NotFoundError \<lparr>StatusCode = 404, Message = ''slow down'', Body = ''{"detail":"slow down"}'',
                    RequestID = [], Details = [(''detail'', JString ''slow down'')]\<rparr>
   \<and> apiErrorFromResponse sample_lib 418 [] None [] =
     PlainAPIError \<lparr>StatusCode = 418, Message = ''HTTP 418'', Body = [], RequestID = [], Details = []\<rparr>
   \<and> apiErrorFromResponse sample_lib 503 [] None [] =
     ServerError \<lparr>StatusCode = 503, Message = ''HTTP 503'', Body = [], RequestID = [], Details = []\<rparr>\<close>
proof -
  have a: "show_int 418 = ''418''" by code_simp
  have b: "show_int 503 = ''503''" by code_simp
  have c: "base_error sample_lib 418 [] None [] =
     \<lparr>StatusCode = 418, Message = ''HTTP 418'', Body = [], RequestID = [], Details = []\<rparr>"
    using a by (simp add: base_error_def extractErrorDetail_def)
  have d: "base_error sample_lib 503 [] None [] =
     \<lparr>StatusCode = 503, Message = ''HTTP 503'', Body = [], RequestID = [], Details = []\<rparr>"
    using b by (simp add: base_error_def extractErrorDetail_def)
  show ?thesis
    using apiErrorFromResponse_C4[of 404 sample_lib \<open>''{"detail":"slow down"}''\<close> None "''X-Request-ID''"]
          apiErrorFromResponse_C4[of 418 sample_lib "[]" None "[]"]
          apiErrorFromResponse_C4[of 503 sample_lib "[]" None "[]"]
          sample_base c d
    by simp
qed

text \<open>
  Claim C5, as amended. Rendering an \<^verbatim>\<open>APIError\<close> gives
  \<^verbatim>\<open>roe api error (STATUS): MESSAGE (request_id=ID)\<close> when the request id is not empty and
  \<^verbatim>\<open>roe api error (STATUS): MESSAGE\<close> otherwise; rendering the nil error gives the empty string.
\<close>

theorem APIError_Error_C5:
  "(RequestID a \<noteq> [] \<longrightarrow>
      APIError_Error (Some a) =
        ''roe api error ('' @ show_int (StatusCode a) @ ''): '' @ Message a
          @ '' (request_id='' @ RequestID a @ '')'')
   \<and> (RequestID a = [] \<longrightarrow>
      APIError_Error (Some a) =
        ''roe api error ('' @ show_int (StatusCode a) @ ''): '' @ Message a)
   \<and> APIError_Error None = []"
  by (simp add: APIError_Error_def)

text \<open>A 404 with a request id and a 500 without one.\<close>

theorem APIError_Error_C5_witness:
  "APIError_Error (Some \<lparr>StatusCode = 404, Message = ''gone'', Body = [], RequestID = ''r-1'',
                          Details = []\<rparr>) = ''roe api error (404): gone (request_id=r-1)''
   \<and> APIError_Error (Some \<lparr>StatusCode = 500, Message = ''boom'', Body = [], RequestID = [],
                          Details = []\<rparr>) = ''roe api error (500): boom''"
proof -
  have a: "show_int 404 = ''404''" by code_simp
  have b: "show_int 500 = ''500''" by code_simp
  show ?thesis
    using APIError_Error_C5[of "\<lparr>StatusCode = 404, Message = ''gone'', Body = [],
                                 RequestID = ''r-1'', Details = []\<rparr>"]
          APIError_Error_C5[of "\<lparr>StatusCode = 500, Message = ''boom'', Body = [],
                                 RequestID = [], Details = []\<rparr>"] a b
    by simp
qed

text \<open>
  Claim C5 as stated, without the prefix \<^verbatim>\<open>roe\<close>, fails: the rendering of a 500 with the
  message boom and no request id is not \<^verbatim>\<open>api error (500): boom\<close>.
\<close>

theorem APIError_Error_C5_counterexample:
  "APIError_Error (Some \<lparr>StatusCode = 500, Message = ''boom'', Body = [], RequestID = [],
                          Details = []\<rparr>) \<noteq> ''api error (500): boom''"
  by code_simp

text \<open>
  Claim C6. \<^verbatim>\<open>parseRetryAfter\<close> yields nothing for a nil header set and for an absent or
  empty \<^verbatim>\<open>Retry-After\<close>; a value that \<^verbatim>\<open>Atoi\<close> reads gives that many seconds; a value that
  \<^verbatim>\<open>Atoi\<close> rejects and \<^verbatim>\<open>http.ParseTime\<close> reads gives the time from now until that date; a value
  both reject yields nothing. With \<^verbatim>\<open>Retry-After: 30\<close> a 429 response becomes a
  \<^verbatim>\<open>RateLimitError\<close> carrying 30 seconds.
\<close>

theorem parseRetryAfter_C6:
  "parseRetryAfter lib None = None
   \<and> (h ''Retry-After'' = [] \<longrightarrow> parseRetryAfter lib (Some h) = None)
   \<and> (h ''Retry-After'' \<noteq> [] \<and> Atoi (h ''Retry-After'') = Some n \<longrightarrow>
        parseRetryAfter lib (Some h) = Some (wrap64 (n * Second)))
   \<and> (h ''Retry-After'' \<noteq> [] \<and> Atoi (h ''Retry-After'') = None
        \<and> http_ParseTime lib (h ''Retry-After'') = Some t \<longrightarrow>
        parseRetryAfter lib (Some h) = Some (clamp64 (t - time_Now lib)))
   \<and> (Atoi (h ''Retry-After'') = None \<and> http_ParseTime lib (h ''Retry-After'') = None \<longrightarrow>
        parseRetryAfter lib (Some h) = None)
   \<and> (h ''Retry-After'' = ''30'' \<longrightarrow>
        apiErrorFromResponse lib 429 body (Some h) rid =
          RateLimitError (base_error lib 429 body (Some h) rid) (Some (30 * Second)))"
proof -
  have a: "Atoi ''30'' = Some 30" by code_simp
  have w: "wrap64 (30 * Second) = 30 * Second" by (simp add: wrap64_def Second_def)
  show ?thesis
    using a w by (auto simp: parseRetryAfter_def apiErrorFromResponse_def Let_def)
qed

text \<open>The values 30, an HTTP date thirty seconds ahead, a word, and no header.\<close>

theorem parseRetryAfter_C6_witness:
  "parseRetryAfter sample_lib (Some (hdr_of [(''Retry-After'', ''30'')])) = Some (30 * Second)
   \<and> parseRetryAfter sample_lib (Some (hdr_of [(''Retry-After'', ''Wed, 21 Oct 2015 07:28:00 GMT'')]))
       = Some (30 * Second)
   \<and> parseRetryAfter sample_lib (Some (hdr_of [(''Retry-After'', ''soon'')])) = None
   \<and> parseRetryAfter sample_lib (Some (hdr_of [])) = None"
proof -
  have a: "Atoi ''30'' = Some 30" by code_simp
  have b: "Atoi ''Wed, 21 Oct 2015 07:28:00 GMT'' = None" by code_simp
  have c: "Atoi ''soon'' = None" by code_simp
  have w: "wrap64 (30 * Second) = 30 * Second" by (simp add: wrap64_def Second_def)
  have k: "clamp64 (1445412480 * Second - 1445412450 * Second) = 30 * Second"
    by (simp add: clamp64_def Second_def)
  show ?thesis
    using parseRetryAfter_C6[of sample_lib "hdr_of [(''Retry-After'', ''30'')]" 30]
      parseRetryAfter_C6[of sample_lib "hdr_of [(''Retry-After'', ''Wed, 21 Oct 2015 07:28:00 GMT'')]" _ "1445412480 * Second"]
      parseRetryAfter_C6[of sample_lib "hdr_of [(''Retry-After'', ''soon'')]"]
      parseRetryAfter_C6[of sample_lib "hdr_of []"]
      a b c w k
    by (simp add: hdr_of_def sample_lib_def)
qed

section \<open>Properties of GetReferences\<close>

lemma item_refs_append: "item_refs refs item = refs @ item_refs [] item"
  by (simp add: item_refs_def Let_def split: json.splits)

lemma foldl_item_refs: "foldl item_refs refs arr = refs @ concat (map (item_refs []) arr)"
proof (induction arr arbitrary: refs)
  case Nil
  then show ?case by simp
next
  case (Cons item arr)
  have "foldl item_refs refs (item # arr) = foldl item_refs (item_refs refs item) arr" by simp
  also have "\<dots> = item_refs refs item @ concat (map (item_refs []) arr)" by (rule Cons.IH)
  also have "\<dots> = refs @ item_refs [] item @ concat (map (item_refs []) arr)"
    by (subst item_refs_append) simp
  finally show ?case by simp
qed

lemma datum_refs_append: "datum_refs lib refs out = refs @ datum_refs lib [] out"
  by (simp add: datum_refs_def foldl_item_refs split: option.splits json.splits)

lemma GetReferences_concat:
  "GetReferences lib r = concat (map (datum_refs lib []) (Outputs r))"
proof -
  have "foldl (datum_refs lib) refs outs = refs @ concat (map (datum_refs lib []) outs)"
    for refs outs
  proof (induction outs arbitrary: refs)
    case Nil
    then show ?case by simp
  next
    case (Cons out outs)
    have "foldl (datum_refs lib) refs (out # outs) = datum_refs lib refs out @ concat (map (datum_refs lib []) outs)"
      by (simp add: Cons.IH)
    then show ?case by (subst (asm) datum_refs_append) simp
  qed
  then show ?thesis by (simp add: GetReferences_def)
qed

lemma split_example:
  "Split ''https://x/references/abc123/'' ''/references/'' = [''https://x'', ''abc123/'']"
  by code_simp

lemma item_example:
  "item_refs [] (JString ''https://x/references/abc123/'')
     = [\<lparr>URL = ''https://x/references/abc123/'', ResourceID = ''abc123''\<rparr>]"
  by code_simp

text \<open>
  Claim C9, as amended. \<^verbatim>\<open>GetReferences\<close> returns a list and no error: the references of
  the output data in order. A datum whose value \<^verbatim>\<open>json.Unmarshal\<close> rejects, whose map has no
  key \<^verbatim>\<open>references\<close>, or whose \<^verbatim>\<open>references\<close> entry is not an array contributes none; an
  array contributes what its elements contribute, and an element that is not a string
  contributes none. A result whose only datum holds the one URL
  \<^verbatim>\<open>https://x/references/abc123/\<close> yields that URL with the resource id \<^verbatim>\<open>abc123\<close>.
\<close>

theorem GetReferences_C9:
  "GetReferences lib r = concat (map (datum_refs lib []) (Outputs r))
   \<and> (json_Unmarshal_map lib (Value out) = None \<longrightarrow> datum_refs lib [] out = [])
   \<and> (json_Unmarshal_map lib (Value out) = Some parsed \<and> map_of parsed ''references'' = None
        \<longrightarrow> datum_refs lib [] out = [])
   \<and> (json_Unmarshal_map lib (Value out) = Some parsed \<and> map_of parsed ''references'' = Some raw
        \<and> (\<forall>arr. raw \<noteq> JArray arr) \<longrightarrow> datum_refs lib [] out = [])
   \<and> (json_Unmarshal_map lib (Value out) = Some parsed
        \<and> map_of parsed ''references'' = Some (JArray arr)
        \<longrightarrow> datum_refs lib [] out = concat (map (item_refs []) arr))
   \<and> ((\<forall>s. item \<noteq> JString s) \<longrightarrow> item_refs [] item = [])
   \<and> (Outputs r = [out]
        \<and> json_Unmarshal_map lib (Value out)
            = Some [(''references'', JArray [JString ''https://x/references/abc123/''])]
        \<longrightarrow> GetReferences lib r
            = [\<lparr>URL = ''https://x/references/abc123/'', ResourceID = ''abc123''\<rparr>])"
proof (intro conjI impI)
  show "GetReferences lib r = concat (map (datum_refs lib []) (Outputs r))"
    by (rule GetReferences_concat)
next
  assume "json_Unmarshal_map lib (Value out) = None"
  then show "datum_refs lib [] out = []" by (simp add: datum_refs_def)
next
  assume "json_Unmarshal_map lib (Value out) = Some parsed \<and> map_of parsed ''references'' = None"
  then show "datum_refs lib [] out = []" by (simp add: datum_refs_def)
next
  assume "json_Unmarshal_map lib (Value out) = Some parsed \<and> map_of parsed ''references'' = Some raw
        \<and> (\<forall>arr. raw \<noteq> JArray arr)"
  then show "datum_refs lib [] out = []" by (cases raw) (simp_all add: datum_refs_def)
next
  assume "json_Unmarshal_map lib (Value out) = Some parsed
        \<and> map_of parsed ''references'' = Some (JArray arr)"
  then show "datum_refs lib [] out = concat (map (item_refs []) arr)"
    by (simp add: datum_refs_def foldl_item_refs)
next
  assume "\<forall>s. item \<noteq> JString s"
  then show "item_refs [] item = []" by (cases item) (simp_all add: item_refs_def)
next
  assume "Outputs r = [out]
        \<and> json_Unmarshal_map lib (Value out)
            = Some [(''references'', JArray [JString ''https://x/references/abc123/''])]"
  then show "GetReferences lib r
            = [\<lparr>URL = ''https://x/references/abc123/'', ResourceID = ''abc123''\<rparr>]"
    using item_example by (simp add: GetReferences_def datum_refs_def)
qed

text \<open>The example of the claim, a value that is no JSON, and the JSON value null.\<close>

theorem GetReferences_C9_witness:
  \<open>GetReferences sample_lib
      (sample_result_of [sample_value_datum ''{"references":["https://x/references/abc123/"]}''])
     = [\<lparr>URL = ''https://x/references/abc123/'', ResourceID = ''abc123''\<rparr>]
   \<and> datum_refs sample_lib [] (sample_value_datum ''not json'') = []
   \<and> datum_refs sample_lib [] (sample_value_datum ''null'') = []\<close>
proof -
  have a: \<open>json_Unmarshal_map sample_lib ''{"references":["https://x/references/abc123/"]}''
            = Some [(''references'', JArray [JString ''https://x/references/abc123/''])]\<close>
    by (simp add: sample_lib_def)
  have b: "json_Unmarshal_map sample_lib ''not json'' = None"
    by (simp add: sample_lib_def)
  have c: "json_Unmarshal_map sample_lib ''null'' = Some []"
    by (simp add: sample_lib_def)
  show ?thesis
    using GetReferences_C9[of sample_lib
        \<open>sample_result_of [sample_value_datum ''{"references":["https://x/references/abc123/"]}'']\<close>
        \<open>sample_value_datum ''{"references":["https://x/references/abc123/"]}''\<close>]
      GetReferences_C9[of sample_lib _ "sample_value_datum ''not json''"]
      GetReferences_C9[of sample_lib _ "sample_value_datum ''null''" "[]"]
      a b c
    by (simp add: sample_value_datum_def sample_result_of_def)
qed

text \<open>
  Claim C9 as stated fails: an array holding a URL and a number is not an array of
  strings, and the datum still contributes the reference of the URL.
\<close>

theorem GetReferences_C9_counterexample:
  \<open>json_Unmarshal_map sample_lib (Value (sample_value_datum ''{"references":["https://x/references/a1",7]}''))
     = Some [(''references'', JArray [JString ''https://x/references/a1'', JNumber ''7''])]
   \<and> datum_refs sample_lib [] (sample_value_datum ''{"references":["https://x/references/a1",7]}'')
     = [\<lparr>URL = ''https://x/references/a1'', ResourceID = ''a1''\<rparr>]\<close>
proof -
  have i: "item_refs [] (JString ''https://x/references/a1'')
             = [\<lparr>URL = ''https://x/references/a1'', ResourceID = ''a1''\<rparr>]"
    by code_simp
  have j: "item_refs [\<lparr>URL = ''https://x/references/a1'', ResourceID = ''a1''\<rparr>] (JNumber ''7'')
             = [\<lparr>URL = ''https://x/references/a1'', ResourceID = ''a1''\<rparr>]"
    by (simp add: item_refs_def)
  show ?thesis
    using i j by (simp add: datum_refs_def sample_lib_def sample_value_datum_def)
qed

section \<open>Properties of jobs\<close>

text \<open>
  Claim C2, as amended. \<^verbatim>\<open>convertBatchResult\<close> returns the error
  \<^verbatim>\<open>job ID not found or deleted\<close> exactly when the entry lacks its agent id or its
  agent-version id (one missing is enough); an entry with both goes on to the conversion of
  its outputs, and fails only if that conversion fails.
\<close>

theorem convertBatchResult_C2:
  "(convertBatchResult lib res = Inl (JobNotFound (ID_rb res))
      \<longleftrightarrow> AgentID_rb res = None \<or> AgentVersionID_rb res = None)
   \<and> Error (JobNotFound (ID_rb res)) = ''job '' @ ID_rb res @ '' not found or deleted''
   \<and> (AgentID_rb res = Some a \<and> AgentVersionID_rb res = Some v \<longrightarrow>
        (case convert_outputs lib res of
           Inl err \<Rightarrow> convertBatchResult lib res = Inl err \<and> err \<noteq> JobNotFound (ID_rb res)
         | Inr outputs \<Rightarrow>
             (\<exists>r. convertBatchResult lib res = Inr r \<and> AgentID r = a \<and> AgentVersionID r = v
                  \<and> Outputs r = (if outputs = [] \<and> Corrected_rb res \<noteq> [] then Corrected_rb res
                                  else outputs))))"
proof -
  have ne: "\<And>err. convert_outputs lib res = Inl err \<Longrightarrow> err \<noteq> JobNotFound (ID_rb res)"
  proof -
    fix err assume e: "convert_outputs lib res = Inl err"
    have el: "\<And>jid i data outputs err. convert_elements lib jid i data outputs = Inl err
                 \<Longrightarrow> err \<noteq> JobNotFound (ID_rb res)"
    proof -
      fix jid i data outputs err
      show "convert_elements lib jid i data outputs = Inl err \<Longrightarrow> err \<noteq> JobNotFound (ID_rb res)"
        by (induction data arbitrary: i outputs) (auto split: sum.splits)
    qed
    show "err \<noteq> JobNotFound (ID_rb res)"
      using e el by (auto simp: convert_outputs_def split: json.splits sum.splits)
  qed
  show ?thesis
    using ne by (auto simp: convertBatchResult_def Let_def split: sum.splits)
qed

text \<open>An entry with neither id, and an entry with both and one output.\<close>

theorem convertBatchResult_C2_witness:
  "convertBatchResult sample_lib (sample_entry ''job-9'' None None JNull) = Inl (JobNotFound ''job-9'')
   \<and> Error (JobNotFound ''job-9'') = ''job job-9 not found or deleted''
   \<and> (\<exists>r. convertBatchResult sample_lib
              (sample_entry ''job-1'' (Some ''agent'') (Some ''v1'') (JArray [sample_datum_json ''first'']))
            = Inr r \<and> AgentID r = ''agent'' \<and> AgentVersionID r = ''v1''
              \<and> Outputs r = [sample_datum ''first''])"
proof -
  have c: "convert_outputs sample_lib
             (sample_entry ''job-1'' (Some ''agent'') (Some ''v1'') (JArray [sample_datum_json ''first'']))
           = Inr [sample_datum ''first'']"
    by (simp add: convert_outputs_def sample_entry_def sample_lib_def sample_values_def
          sample_datum_json_def sample_datum_text_def)
  show ?thesis
    using convertBatchResult_C2[of sample_lib "sample_entry ''job-9'' None None JNull"]
      convertBatchResult_C2[of sample_lib
        "sample_entry ''job-1'' (Some ''agent'') (Some ''v1'') (JArray [sample_datum_json ''first''])"
        "''agent''" "''v1''"] c
    by (simp add: sample_entry_def)
qed

text \<open>
  Claim C2 as stated fails: an entry that carries an agent id but no agent-version id
  does not lack both, and is still answered with the not-found error.
\<close>

theorem convertBatchResult_C2_counterexample:
  "AgentID_rb (sample_entry ''job-1'' (Some ''agent'') None JNull) \<noteq> None
   \<and> convertBatchResult sample_lib (sample_entry ''job-1'' (Some ''agent'') None JNull)
       = Inl (JobNotFound ''job-1'')"
  by (simp add: convertBatchResult_def sample_entry_def)

lemma Job_WaitContext_quiet:
  "agentsAPI j \<Longrightarrow> list_all quiet_round pre \<Longrightarrow>
     Job_WaitContext j (pre @ rest) = Job_WaitContext j rest"
  by (induction pre)
     (auto simp: quiet_round_def Job_RetrieveStatusWithContext_def split: sum.splits)

text \<open>
  Claim C7. When \<^verbatim>\<open>Job.WaitContext\<close> sees one of the four terminal statuses, after any
  number of rounds that saw the job running, and the result call succeeds, it returns that
  result: for failure with the error \<^verbatim>\<open>job ID ended with status failure\<close>, for cancelled
  with the error \<^verbatim>\<open>job ID ended with status cancelled\<close>, and for success and for cached
  with no error.
\<close>

theorem Job_WaitContext_C7:
  assumes "agentsAPI j" and "list_all quiet_round pre"
    and "jr_done_top rd = None" and "jr_status rd = Inr st" and "jr_result rd = Inr result"
  shows "(Status st = JobFailure \<longrightarrow>
            Job_WaitContext j (pre @ rd # post)
              = Some (result, Some (JobEnded (jobID j) JobFailure))
            \<and> Error (JobEnded (jobID j) JobFailure)
              = ''job '' @ jobID j @ '' ended with status failure'')
       \<and> (Status st = JobCancelled \<longrightarrow>
            Job_WaitContext j (pre @ rd # post)
              = Some (result, Some (JobEnded (jobID j) JobCancelled))
            \<and> Error (JobEnded (jobID j) JobCancelled)
              = ''job '' @ jobID j @ '' ended with status cancelled'')
       \<and> (Status st = JobSuccess \<longrightarrow>
            Job_WaitContext j (pre @ rd # post) = Some (result, None))
       \<and> (Status st = JobCached \<longrightarrow>
            Job_WaitContext j (pre @ rd # post) = Some (result, None))"
proof -
  have q: "Job_WaitContext j (pre @ rd # post) = Job_WaitContext j (rd # post)"
    using assms(1,2) by (rule Job_WaitContext_quiet)
  have sf: "String JobFailure = ''failure''"
    by (simp add: String_def JobPending_def JobStarted_def JobRetry_def JobSuccess_def
          JobFailure_def)
  have sc: "String JobCancelled = ''cancelled''"
    by (simp add: String_def JobPending_def JobStarted_def JobRetry_def JobSuccess_def
          JobFailure_def JobCancelled_def)
  have step: "IsTerminal (Status st) \<Longrightarrow>
      Job_WaitContext j (rd # post) =
        (if Status st = JobFailure \<or> Status st = JobCancelled
         then Some (result, Some (JobEnded (jobID j) (Status st)))
         else Some (result, None))"
    using assms
    by (simp add: Job_RetrieveStatusWithContext_def Job_RetrieveResultWithContext_def)
  show ?thesis
  proof (intro conjI impI)
    assume s: "Status st = JobFailure"
    then have "IsTerminal (Status st)" by (simp add: IsTerminal_def)
    then show "Job_WaitContext j (pre @ rd # post)
                 = Some (result, Some (JobEnded (jobID j) JobFailure))"
      using step q s by simp
  next
    show "Error (JobEnded (jobID j) JobFailure)
            = ''job '' @ jobID j @ '' ended with status failure''"
      using sf by simp
  next
    assume s: "Status st = JobCancelled"
    then have "IsTerminal (Status st)" by (simp add: IsTerminal_def)
    then show "Job_WaitContext j (pre @ rd # post)
                 = Some (result, Some (JobEnded (jobID j) JobCancelled))"
      using step q s by simp
  next
    show "Error (JobEnded (jobID j) JobCancelled)
            = ''job '' @ jobID j @ '' ended with status cancelled''"
      using sc by simp
  next
    assume s: "Status st = JobSuccess"
    then have "IsTerminal (Status st)" by (simp add: IsTerminal_def)
    then show "Job_WaitContext j (pre @ rd # post) = Some (result, None)"
      using step q s by (simp add: JobSuccess_def JobFailure_def JobCancelled_def)
  next
    assume s: "Status st = JobCached"
    then have "IsTerminal (Status st)" by (simp add: IsTerminal_def)
    then show "Job_WaitContext j (pre @ rd # post) = Some (result, None)"
      using step q s by (simp add: JobCached_def JobFailure_def JobCancelled_def)
  qed
qed

text \<open>
  Two rounds of waiting (pending, then started) and then a failure; a round of retry and
  then a cancellation; a job that succeeds after one round; a job found cached at once.
\<close>

theorem Job_WaitContext_C7_witness:
  "Job_WaitContext (newJob True ''job-7'' 0)
      [sample_job_round JobPending [], sample_job_round JobStarted [],
       sample_job_round JobFailure ''partial'']
     = Some (sample_result ''partial'', Some (JobEnded ''job-7'' JobFailure))
   \<and> Error (JobEnded ''job-7'' JobFailure) = ''job job-7 ended with status failure''
   \<and> Job_WaitContext (newJob True ''job-7'' 0)
      [sample_job_round JobRetry [], sample_job_round JobCancelled ''partial'']
     = Some (sample_result ''partial'', Some (JobEnded ''job-7'' JobCancelled))
   \<and> Error (JobEnded ''job-7'' JobCancelled) = ''job job-7 ended with status cancelled''
   \<and> Job_WaitContext (newJob True ''job-7'' 0)
      [sample_job_round JobStarted [], sample_job_round JobSuccess ''done'']
     = Some (sample_result ''done'', None)
   \<and> Job_WaitContext (newJob True ''job-7'' 0) [sample_job_round JobCached ''done'']
     = Some (sample_result ''done'', None)"
proof -
  have qr: "quiet_round (sample_job_round JobPending [])"
           "quiet_round (sample_job_round JobStarted [])"
           "quiet_round (sample_job_round JobRetry [])"
    by (simp_all add: quiet_round_def sample_job_round_def sample_status_def IsTerminal_def
          JobPending_def JobStarted_def JobRetry_def JobSuccess_def JobFailure_def
          JobCancelled_def JobCached_def)
  have q2: "list_all quiet_round [sample_job_round JobPending [], sample_job_round JobStarted []]"
    using qr by simp
  have q1r: "list_all quiet_round [sample_job_round JobRetry []]" using qr by simp
  have q1s: "list_all quiet_round [sample_job_round JobStarted []]" using qr by simp
  have q0: "list_all quiet_round []" by simp
  have a: "agentsAPI (newJob True ''job-7'' 0)" by (simp add: newJob_def)
  have tp: "\<And>s v. jr_done_top (sample_job_round s v) = None"
    by (simp add: sample_job_round_def)
  have st: "\<And>s v. jr_status (sample_job_round s v) = Inr (sample_status s)"
    by (simp add: sample_job_round_def)
  have rs: "\<And>s v. jr_result (sample_job_round s v) = Inr (sample_result v)"
    by (simp add: sample_job_round_def)
  have ss: "\<And>s. Status (sample_status s) = s" by (simp add: sample_status_def)
  have jid: "jobID (newJob True ''job-7'' 0) = ''job-7''" by (simp add: newJob_def)
  note f = Job_WaitContext_C7[OF a q2 tp st rs, of JobFailure "''partial''" "[]",
             unfolded ss jid, THEN conjunct1, rule_format, OF refl]
  note c = Job_WaitContext_C7[OF a q1r tp st rs, of JobCancelled "''partial''" "[]",
             unfolded ss jid, THEN conjunct2, THEN conjunct1, rule_format, OF refl]
  note u = Job_WaitContext_C7[OF a q1s tp st rs, of JobSuccess "''done''" "[]",
             unfolded ss jid, THEN conjunct2, THEN conjunct2, THEN conjunct1, rule_format, OF refl]
  note h = Job_WaitContext_C7[OF a q0 tp st rs, of JobCached "''done''" "[]",
             unfolded ss jid, THEN conjunct2, THEN conjunct2, THEN conjunct2, rule_format, OF refl]
  show ?thesis using f c u h by simp
qed

section \<open>Properties of the retrying transport\<close>


lemma wrap64_id: "- (2 ^ 63) \<le> x \<Longrightarrow> x < 2 ^ 63 \<Longrightarrow> wrap64 x = x"
  by (simp add: wrap64_def)









section \<open>Properties of batch retrieval\<close>

lemma last_pos_None: "last_pos ys x = None \<longleftrightarrow> x \<notin> set ys"
  by (induction ys) (auto split: option.splits)

lemma last_pos_Some: "last_pos ys x = Some n \<Longrightarrow> n < length ys \<and> ys ! n = x"
  by (induction ys arbitrary: n) (auto split: option.splits if_splits)

lemma last_pos_last:
  "last_pos ys x = Some n \<Longrightarrow> n < j \<Longrightarrow> j < length ys \<Longrightarrow> ys ! j \<noteq> x"
proof (induction ys arbitrary: n j)
  case Nil
  then show ?case by simp
next
  case (Cons y ys)
  show ?case
  proof (cases "last_pos ys x")
    case None
    then have "x \<notin> set ys" by (simp add: last_pos_None)
    moreover have "0 < j" using Cons.prems by simp
    ultimately show ?thesis using Cons.prems by (auto simp: nth_Cons')
  next
    case (Some m)
    then show ?thesis using Cons by (auto simp: nth_Cons' split: if_splits)
  qed
qed

lemma last_pos_distinct:
  "distinct ys \<Longrightarrow> i < length ys \<Longrightarrow> last_pos ys (ys ! i) = Some i"
proof (induction ys arbitrary: i)
  case Nil
  then show ?case by simp
next
  case (Cons y ys)
  show ?case
  proof (cases i)
    case 0
    then show ?thesis using Cons.prems by (simp add: last_pos_None[THEN iffD2])
  next
    case (Suc k)
    then show ?thesis using Cons by simp
  qed
qed

lemma build_order_lookup:
  "map_of (build_order ids idx order) x =
     (case last_pos ids x of Some n \<Rightarrow> Some (idx + n) | None \<Rightarrow> map_of order x)"
proof (induction ids arbitrary: idx order)
  case Nil
  then show ?case by simp
next
  case (Cons i ids)
  show ?case
    by (simp add: Cons.IH update_conv' split: option.splits)
qed

lemma chunk_calls_combined:
  "chunk_calls idf order post k chunks acc =
     (case combined_responses post k chunks of
        Inl err \<Rightarrow> Inl err
      | Inr combined \<Rightarrow> Inr (fold (place_entry idf order) combined acc))"
  by (induction chunks arbitrary: k acc) (auto split: sum.splits)

lemma fold_place_length:
  "length (fst (fold (place_entry idf order) es acc)) = length (fst acc)"
  by (induction es arbitrary: acc) (auto simp: place_entry_def split: option.splits)

lemma lookup_bool_update:
  "lookup_bool (AList.update k True m) x \<longleftrightarrow> x = k \<or> lookup_bool m x"
  by (simp add: lookup_bool_def update_conv')

lemma fold_place_received:
  "lookup_bool (snd (fold (place_entry idf order) es acc)) x
     \<longleftrightarrow> lookup_bool (snd acc) x \<or> (x \<in> idf ` set es \<and> map_of order x \<noteq> None)"
proof (induction es arbitrary: acc)
  case Nil
  then show ?case by simp
next
  case (Cons e es)
  show ?case
  proof (cases "map_of order (idf e)")
    case None
    then have "place_entry idf order e acc = acc" by (simp add: place_entry_def)
    then show ?thesis using Cons.IH[of acc] None by auto
  next
    case (Some idx)
    then have "snd (place_entry idf order e acc) = AList.update (idf e) True (snd acc)"
      by (simp add: place_entry_def)
    then show ?thesis
      using Cons.IH[of "place_entry idf order e acc"] Some
      by (auto simp: lookup_bool_update)
  qed
qed

lemma fold_place_nth:
  assumes "i < length (fst acc)"
  shows "fst (fold (place_entry idf order) es acc) ! i =
           (case find (\<lambda>e. map_of order (idf e) = Some i) (rev es) of
              Some e \<Rightarrow> e
            | None \<Rightarrow> fst acc ! i)"
proof (induction es rule: rev_induct)
  case Nil
  then show ?case by simp
next
  case (snoc e es)
  let ?mid = "fold (place_entry idf order) es acc"
  have len: "i < length (fst ?mid)" using assms by (simp add: fold_place_length)
  have f: "fold (place_entry idf order) (es @ [e]) acc = place_entry idf order e ?mid" by simp
  show ?case
  proof (cases "map_of order (idf e)")
    case None
    then show ?thesis using snoc f by (simp add: place_entry_def)
  next
    case (Some idx)
    then have "fst (place_entry idf order e ?mid) = (fst ?mid)[idx := e]"
      by (simp add: place_entry_def)
    then show ?thesis using snoc f Some len by (auto simp: nth_list_update)
  qed
qed

lemma find_rev_last:
  "find p (rev xs) = (if filter p xs = [] then None else Some (last (filter p xs)))"
  by (induction xs rule: rev_induct) auto

lemma order_lookup: "map_of (build_order ids 0 []) x = last_pos ids x"
  by (simp add: build_order_lookup split: option.splits)

lemma retrieve_many_combined:
  assumes ne: "ids \<noteq> []"
    and comb: "combined_responses post 0 (chunkStrings ids maxBatchSize) = Inr combined"
  shows "retrieve_many idf placeholder wt nf post ids =
     (if set ids \<subseteq> idf ` set combined
      then Inr (map (placed idf placeholder ids combined) [0..<length ids])
      else Inl (nf (filter (\<lambda>i. i \<notin> idf ` set combined) ids)))"
proof -
  let ?order = "build_order ids 0 []"
  let ?acc = "(map placeholder ids, [] :: (string, bool) gomap)"
  let ?fin = "fold (place_entry idf ?order) combined ?acc"
  have cc: "chunk_calls idf ?order post 0 (chunkStrings ids maxBatchSize) ?acc = Inr ?fin"
    by (simp add: chunk_calls_combined comb)
  have rec: "lookup_bool (snd ?fin) x \<longleftrightarrow> x \<in> idf ` set combined \<and> x \<in> set ids" for x
    by (subst fold_place_received) (auto simp: order_lookup last_pos_None lookup_bool_def)
  have miss: "filter (\<lambda>i. \<not> lookup_bool (snd ?fin) i) ids
                = filter (\<lambda>i. i \<notin> idf ` set combined) ids"
    by (rule filter_cong) (auto simp: rec)
  have empty: "filter (\<lambda>i. i \<notin> idf ` set combined) ids = []
                 \<longleftrightarrow> set ids \<subseteq> idf ` set combined"
    by (auto simp: filter_empty_conv)
  have res: "fst ?fin = map (placed idf placeholder ids combined) [0..<length ids]"
  proof (rule nth_equalityI)
    show "length (fst ?fin) = length (map (placed idf placeholder ids combined) [0..<length ids])"
      by (simp add: fold_place_length)
  next
    fix i assume "i < length (fst ?fin)"
    then have i: "i < length ids" by (simp add: fold_place_length)
    then have "fst ?fin ! i =
           (case find (\<lambda>e. map_of ?order (idf e) = Some i) (rev combined) of
              Some e \<Rightarrow> e
            | None \<Rightarrow> fst ?acc ! i)"
      by (intro fold_place_nth) simp
    then show "fst ?fin ! i = map (placed idf placeholder ids combined) [0..<length ids] ! i"
      using i by (simp add: placed_def order_lookup split: option.splits)
  qed
  obtain rs rc where fin: "?fin = (rs, rc)" by (cases ?fin)
  have "retrieve_many idf placeholder wt nf post ids =
          (let missing = filter (\<lambda>i. \<not> lookup_bool rc i) ids
           in if length missing > 0 then Inl (nf missing) else Inr rs)"
    using ne cc fin by (simp add: retrieve_many_def)
  then show ?thesis
    using miss empty res fin by (auto simp: Let_def)
qed

lemma retrieve_many_failed:
  assumes "ids \<noteq> []"
    and "combined_responses post 0 (chunkStrings ids maxBatchSize) = Inl err"
  shows "retrieve_many idf placeholder wt nf post ids = Inl (Wrapped wt err)"
  using assms by (simp add: retrieve_many_def chunk_calls_combined)

lemma placed_id:
  assumes "\<And>x. idf (placeholder x) = x" and "i < length ids"
  shows "idf (placed idf placeholder ids combined i) = ids ! i"
proof (cases "find (\<lambda>e. last_pos ids (idf e) = Some i) (rev combined)")
  case None
  then show ?thesis using assms by (simp add: placed_def)
next
  case (Some e)
  then have "last_pos ids (idf e) = Some i" by (auto simp: find_Some_iff)
  then have "ids ! i = idf e" by (simp add: last_pos_Some)
  then show ?thesis using Some by (simp add: placed_def)
qed

lemma placed_last:
  assumes lp: "last_pos ids (ids ! i) = Some i" and "ids ! i \<in> idf ` set combined"
  shows "placed idf placeholder ids combined i
           = last (filter (\<lambda>e. idf e = ids ! i) combined)"
proof -
  have p: "(\<lambda>e. last_pos ids (idf e) = Some i) = (\<lambda>e. idf e = ids ! i)"
  proof (intro ext iffI)
    fix e assume "last_pos ids (idf e) = Some i"
    then show "idf e = ids ! i" by (simp add: last_pos_Some)
  next
    fix e assume "idf e = ids ! i"
    then show "last_pos ids (idf e) = Some i" using lp by simp
  qed
  have "filter (\<lambda>e. idf e = ids ! i) combined \<noteq> []"
    using assms(2) by (auto simp: filter_empty_conv)
  then show ?thesis by (simp add: placed_def p find_rev_last)
qed

lemma placed_placeholder:
  assumes "i < length ids" and "last_pos ids (ids ! i) \<noteq> Some i"
  shows "placed idf placeholder ids combined i = placeholder (ids ! i)"
proof -
  have "find (\<lambda>e. last_pos ids (idf e) = Some i) (rev combined) = None"
  proof (rule ccontr)
    assume "find (\<lambda>e. last_pos ids (idf e) = Some i) (rev combined) \<noteq> None"
    then obtain e where "last_pos ids (idf e) = Some i" by (auto simp: find_Some_iff)
    moreover from this have "ids ! i = idf e" by (simp add: last_pos_Some)
    ultimately show False using assms(2) by simp
  qed
  then show ?thesis by (simp add: placed_def)
qed

lemma fold_place_filter:
  "fold (place_entry idf order) (filter (\<lambda>e. map_of order (idf e) \<noteq> None) es) acc
     = fold (place_entry idf order) es acc"
  by (induction es arbitrary: acc) (auto simp: place_entry_def)

lemma chunk_calls_only_requested:
  "chunk_calls idf (build_order ids 0 []) (only_requested idf ids post) k chunks acc
     = chunk_calls idf (build_order ids 0 []) post k chunks acc"
proof (induction chunks arbitrary: k acc)
  case Nil
  then show ?case by simp
next
  case (Cons c chunks)
  have p: "(\<lambda>e. idf e \<in> set ids) = (\<lambda>e. map_of (build_order ids 0 []) (idf e) \<noteq> None)"
    by (simp add: order_lookup last_pos_None)
  have f: "fold (place_entry idf (build_order ids 0 [])) (filter (\<lambda>e. idf e \<in> set ids) resp) acc
             = fold (place_entry idf (build_order ids 0 [])) resp acc" for resp
    by (subst p) (rule fold_place_filter)
  have step: "chunk_calls idf (build_order ids 0 []) (only_requested idf ids post) k (c # chunks) acc
     = (case post k c of
          Inl err \<Rightarrow> Inl err
        | Inr resp \<Rightarrow>
            chunk_calls idf (build_order ids 0 []) (only_requested idf ids post) (Suc k) chunks
              (fold (place_entry idf (build_order ids 0 [])) (filter (\<lambda>e. idf e \<in> set ids) resp) acc))"
    by (simp add: only_requested_def split: sum.splits)
  show ?case
    by (subst step) (simp add: f Cons.IH split: sum.splits)
qed

lemma retrieve_many_only_requested:
  "retrieve_many idf placeholder wt nf (only_requested idf ids post) ids
     = retrieve_many idf placeholder wt nf post ids"
  by (simp add: retrieve_many_def chunk_calls_only_requested)

lemma retrieve_many_spec:
  assumes ne: "ids \<noteq> []" and ph: "\<And>x. idf (placeholder x) = x"
    and comb: "combined_responses post 0 (chunkStrings ids maxBatchSize) = Inr combined"
  shows "(set ids \<subseteq> idf ` set combined \<longrightarrow>
           (\<exists>results. retrieve_many idf placeholder wt nf post ids = Inr results
              \<and> length results = length ids
              \<and> (\<forall>i < length ids.
                    idf (results ! i) = ids ! i
                    \<and> (last_pos ids (ids ! i) = Some i \<longrightarrow>
                          results ! i = last (filter (\<lambda>e. idf e = ids ! i) combined))
                    \<and> (last_pos ids (ids ! i) \<noteq> Some i \<longrightarrow>
                          results ! i = placeholder (ids ! i)))))
       \<and> (\<not> set ids \<subseteq> idf ` set combined \<longrightarrow>
            retrieve_many idf placeholder wt nf post ids
              = Inl (nf (filter (\<lambda>i. i \<notin> idf ` set combined) ids)))"
proof (intro conjI impI)
  assume sub: "set ids \<subseteq> idf ` set combined"
  let ?rs = "map (placed idf placeholder ids combined) [0..<length ids]"
  have r: "retrieve_many idf placeholder wt nf post ids = Inr ?rs"
    using retrieve_many_combined[OF ne comb] sub by simp
  have "\<forall>i < length ids.
          idf (?rs ! i) = ids ! i
          \<and> (last_pos ids (ids ! i) = Some i \<longrightarrow>
                ?rs ! i = last (filter (\<lambda>e. idf e = ids ! i) combined))
          \<and> (last_pos ids (ids ! i) \<noteq> Some i \<longrightarrow> ?rs ! i = placeholder (ids ! i))"
  proof (intro allI impI conjI)
    fix i assume i: "i < length ids"
    show "idf (?rs ! i) = ids ! i" using i ph by (simp add: placed_id)
  next
    fix i assume i: "i < length ids" and lp: "last_pos ids (ids ! i) = Some i"
    have "ids ! i \<in> idf ` set combined" using sub i by auto
    then show "?rs ! i = last (filter (\<lambda>e. idf e = ids ! i) combined)"
      using i lp by (simp add: placed_last)
  next
    fix i assume i: "i < length ids" and lp: "last_pos ids (ids ! i) \<noteq> Some i"
    then show "?rs ! i = placeholder (ids ! i)" by (simp add: placed_placeholder)
  qed
  then show "\<exists>results. retrieve_many idf placeholder wt nf post ids = Inr results
              \<and> length results = length ids
              \<and> (\<forall>i < length ids.
                    idf (results ! i) = ids ! i
                    \<and> (last_pos ids (ids ! i) = Some i \<longrightarrow>
                          results ! i = last (filter (\<lambda>e. idf e = ids ! i) combined))
                    \<and> (last_pos ids (ids ! i) \<noteq> Some i \<longrightarrow>
                          results ! i = placeholder (ids ! i)))"
    using r by (intro exI[of _ ?rs]) simp
next
  assume "\<not> set ids \<subseteq> idf ` set combined"
  then show "retrieve_many idf placeholder wt nf post ids
              = Inl (nf (filter (\<lambda>i. i \<notin> idf ` set combined) ids))"
    using retrieve_many_combined[OF ne comb] by simp
qed

text \<open>
  Claim C10. For a non-empty request whose calls all succeed, let the combined responses
  be what the endpoint answered, in order. If every requested id occurs in them, both
  retrievals return a list as long as the request whose entry at each index carries the id
  requested at that index: it is the last response entry with that id (at the last index of
  an id requested more than once; an earlier index of such an id keeps its placeholder).
  If some requested id does not occur, they return the not-found error listing the missing
  ids in request order, and no list. Entries whose id was not requested change nothing.
\<close>

theorem RetrieveMany_C10:
  assumes "ids \<noteq> []"
    and "combined_responses post_s 0 (chunkStrings ids maxBatchSize) = Inr cs"
    and "combined_responses post_r 0 (chunkStrings ids maxBatchSize) = Inr cr"
  shows
    "(set ids \<subseteq> ID_sb ` set cs \<longrightarrow>
        (\<exists>results. RetrieveStatusManyWithContext post_s ids = Inr results
           \<and> length results = length ids
           \<and> (\<forall>i < length ids.
                 ID_sb (results ! i) = ids ! i
                 \<and> (last_pos ids (ids ! i) = Some i \<longrightarrow>
                       results ! i = last (filter (\<lambda>e. ID_sb e = ids ! i) cs))
                 \<and> (last_pos ids (ids ! i) \<noteq> Some i \<longrightarrow>
                       results ! i = status_placeholder (ids ! i)))))
     \<and> (\<not> set ids \<subseteq> ID_sb ` set cs \<longrightarrow>
         RetrieveStatusManyWithContext post_s ids
           = Inl (StatusesNotFound (filter (\<lambda>i. i \<notin> ID_sb ` set cs) ids)))
     \<and> RetrieveStatusManyWithContext (only_requested ID_sb ids post_s) ids
         = RetrieveStatusManyWithContext post_s ids
     \<and> (set ids \<subseteq> ID_rb ` set cr \<longrightarrow>
        (\<exists>results. RetrieveResultManyWithContext post_r ids = Inr results
           \<and> length results = length ids
           \<and> (\<forall>i < length ids.
                 ID_rb (results ! i) = ids ! i
                 \<and> (last_pos ids (ids ! i) = Some i \<longrightarrow>
                       results ! i = last (filter (\<lambda>e. ID_rb e = ids ! i) cr))
                 \<and> (last_pos ids (ids ! i) \<noteq> Some i \<longrightarrow>
                       results ! i = result_placeholder (ids ! i)))))
     \<and> (\<not> set ids \<subseteq> ID_rb ` set cr \<longrightarrow>
         RetrieveResultManyWithContext post_r ids
           = Inl (ResultsNotFound (filter (\<lambda>i. i \<notin> ID_rb ` set cr) ids)))
     \<and> RetrieveResultManyWithContext (only_requested ID_rb ids post_r) ids
         = RetrieveResultManyWithContext post_r ids"
proof -
  have ps: "\<And>x. ID_sb (status_placeholder x) = x" by (simp add: status_placeholder_def)
  have pr: "\<And>x. ID_rb (result_placeholder x) = x" by (simp add: result_placeholder_def)
  note s = retrieve_many_spec[OF assms(1) ps assms(2), of "''retrieve job statuses''" StatusesNotFound,
             folded RetrieveStatusManyWithContext_def]
  note r = retrieve_many_spec[OF assms(1) pr assms(3), of "''retrieve job results''" ResultsNotFound,
             folded RetrieveResultManyWithContext_def]
  have os: "RetrieveStatusManyWithContext (only_requested ID_sb ids post_s) ids
         = RetrieveStatusManyWithContext post_s ids"
    unfolding RetrieveStatusManyWithContext_def by (rule retrieve_many_only_requested)
  have or: "RetrieveResultManyWithContext (only_requested ID_rb ids post_r) ids
         = RetrieveResultManyWithContext post_r ids"
    unfolding RetrieveResultManyWithContext_def by (rule retrieve_many_only_requested)
  show ?thesis
    using s r os or by (intro conjI) blast+
qed

lemma list3:
  assumes "length xs = 3"
  shows "xs = [xs ! 0, xs ! 1, xs ! 2]"
proof -
  obtain a b c where "xs = [a, b, c]"
    using assms by (auto simp: numeral_3_eq_3 length_Suc_conv)
  then show ?thesis by simp
qed

text \<open>
  Three ids; the status response lists them out of order with an entry that was not
  requested; the result response lacks the third id.
\<close>

theorem RetrieveMany_C10_witness:
  "RetrieveStatusManyWithContext (answer_with sample_status_response) sample_ids
     = Inr [sample_status_entry ''job-1'' JobStarted, sample_status_entry ''job-2'' JobSuccess,
            sample_status_entry ''job-3'' JobCached]
   \<and> RetrieveResultManyWithContext (answer_with sample_result_response) sample_ids
     = Inl (ResultsNotFound [''job-3''])
   \<and> RetrieveStatusManyWithContext
        (only_requested ID_sb sample_ids (answer_with sample_status_response)) sample_ids
     = RetrieveStatusManyWithContext (answer_with sample_status_response) sample_ids"
proof -
  have ch: "chunkStrings sample_ids maxBatchSize = [sample_ids]"
    by (simp add: chunkStrings_def sample_ids_def maxBatchSize_def)
  have h1: "sample_ids \<noteq> []" by (simp add: sample_ids_def)
  have h2: "combined_responses (answer_with sample_status_response) 0
              (chunkStrings sample_ids maxBatchSize) = Inr sample_status_response"
    by (simp add: ch answer_with_def)
  have h3: "combined_responses (answer_with sample_result_response) 0
              (chunkStrings sample_ids maxBatchSize) = Inr sample_result_response"
    by (simp add: ch answer_with_def)
  note t = RetrieveMany_C10[OF h1 h2 h3]
  have sub: "set sample_ids \<subseteq> ID_sb ` set sample_status_response"
    by (simp add: sample_ids_def sample_status_response_def sample_status_entry_def)
  have nsub: "\<not> set sample_ids \<subseteq> ID_rb ` set sample_result_response"
    by (simp add: sample_ids_def sample_result_response_def sample_entry_def)
  have miss: "filter (\<lambda>i. i \<notin> ID_rb ` set sample_result_response) sample_ids = [''job-3'']"
    by (simp add: sample_ids_def sample_result_response_def sample_entry_def)
  obtain results where r: "RetrieveStatusManyWithContext (answer_with sample_status_response) sample_ids
       = Inr results" and len: "length results = length sample_ids"
    and nth: "\<forall>i < length sample_ids.
                 ID_sb (results ! i) = sample_ids ! i
                 \<and> (last_pos sample_ids (sample_ids ! i) = Some i \<longrightarrow>
                       results ! i = last (filter (\<lambda>e. ID_sb e = sample_ids ! i) sample_status_response))
                 \<and> (last_pos sample_ids (sample_ids ! i) \<noteq> Some i \<longrightarrow>
                       results ! i = status_placeholder (sample_ids ! i))"
    using t sub by blast
  have l3: "length results = 3" using len by (simp add: sample_ids_def)
  have e0: "results ! 0 = sample_status_entry ''job-1'' JobStarted"
    using nth[rule_format, of 0]
    by (simp add: sample_ids_def sample_status_response_def sample_status_entry_def)
  have e1: "results ! 1 = sample_status_entry ''job-2'' JobSuccess"
    using nth[rule_format, of 1]
    by (simp add: sample_ids_def sample_status_response_def sample_status_entry_def)
  have e2: "results ! 2 = sample_status_entry ''job-3'' JobCached"
    using nth[rule_format, of 2]
    by (simp add: sample_ids_def sample_status_response_def sample_status_entry_def)
  have "results = [sample_status_entry ''job-1'' JobStarted, sample_status_entry ''job-2'' JobSuccess,
            sample_status_entry ''job-3'' JobCached]"
    using list3[OF l3] e0 e1 e2 by simp
  then show ?thesis using r t nsub miss by simp
qed

section \<open>Properties of job batches\<close>

lemma assemble_all:
  assumes "\<forall>i \<in> set (jobIDs b). map_of (completed b) i \<noteq> None"
  shows "fst (assemble lib b failures) = map (\<lambda>i. the (map_of (completed b) i)) (jobIDs b)"
    and "completes (snd (assemble lib b failures))"
proof -
  have "concat (map (\<lambda>i. case map_of m i of Some res \<Rightarrow> [res] | None \<Rightarrow> []) xs)
          = map (\<lambda>i. the (map_of m i)) xs"
    if "\<forall>i \<in> set xs. map_of m i \<noteq> None" for xs and m :: "(string, AgentJobResult) gomap"
    using that by (induction xs) auto
  then show "fst (assemble lib b failures) = map (\<lambda>i. the (map_of (completed b) i)) (jobIDs b)"
    using assms by (simp add: assemble_def Let_def)
  show "completes (snd (assemble lib b failures))"
    by (simp add: assemble_def Let_def completes_def)
qed

lemma convert_elements_error:
  "convert_elements lib jid i data outputs = Inl err \<Longrightarrow> \<not> completes (Some err)"
  by (induction data arbitrary: i outputs) (auto simp: completes_def split: sum.splits)

lemma convert_outputs_error:
  "convert_outputs lib res = Inl err \<Longrightarrow> \<not> completes (Some err)"
proof (cases "Result_rb res")
  case (JArray data)
  then show "convert_outputs lib res = Inl err \<Longrightarrow> \<not> completes (Some err)"
    by (auto simp: convert_outputs_def dest: convert_elements_error)
qed (auto simp: convert_outputs_def completes_def split: sum.splits)

lemma convertBatchResult_error:
  "convertBatchResult lib res = Inl err \<Longrightarrow> \<not> completes (Some err)"
  by (auto simp: convertBatchResult_def completes_def Let_def
      split: if_splits sum.splits dest: convert_outputs_error)

lemma convertBatchResult_placeholder:
  "convertBatchResult lib (result_placeholder i) = Inl (JobNotFound i)"
  by (simp add: convertBatchResult_def result_placeholder_def)

lemma retrieve_many_error:
  "retrieve_many idf ph wt nf post ids = Inl err \<Longrightarrow> (\<exists>e. err = Wrapped wt e) \<or> (\<exists>ms. err = nf ms)"
  by (auto simp: retrieve_many_def Let_def split: if_splits sum.splits prod.splits)

lemma status_many_error:
  "RetrieveStatusManyWithContext post ids = Inl err \<Longrightarrow> \<not> completes (Some err)"
  by (auto simp: RetrieveStatusManyWithContext_def completes_def dest!: retrieve_many_error)

lemma result_many_error:
  "RetrieveResultManyWithContext post ids = Inl err \<Longrightarrow> \<not> completes (Some err)"
  by (auto simp: RetrieveResultManyWithContext_def completes_def dest!: retrieve_many_error)

lemma combined_responses_delivered:
  "combined_responses post k chunks = Inr combined \<Longrightarrow> e \<in> set combined
     \<Longrightarrow> \<exists>k chunk resp. post k chunk = Inr resp \<and> e \<in> set resp"
proof (induction chunks arbitrary: k combined)
  case Nil
  then show ?case by simp
next
  case (Cons c chunks)
  from Cons.prems(1) obtain resp rest_resp where
    r: "post k c = Inr resp" "combined_responses post (Suc k) chunks = Inr rest_resp"
       "combined = resp @ rest_resp"
    by (auto split: sum.splits)
  then consider "e \<in> set resp" | "e \<in> set rest_resp" using Cons.prems(2) by auto
  then show ?case
  proof cases
    case 1
    then show ?thesis using r(1) by blast
  next
    case 2
    then show ?thesis using Cons.IH[OF r(2)] by blast
  qed
qed

lemma retrieve_many_entries:
  assumes "retrieve_many idf ph wt nf post ids = Inr results" and "res \<in> set results"
  shows "(\<exists>i. res = ph i) \<or> (\<exists>k chunk resp. post k chunk = Inr resp \<and> res \<in> set resp)"
proof (cases "ids = []")
  case True
  then show ?thesis using assms by (simp add: retrieve_many_def)
next
  case False
  show ?thesis
  proof (cases "combined_responses post 0 (chunkStrings ids maxBatchSize)")
    case (Inl err)
    then show ?thesis using assms False by (simp add: retrieve_many_failed)
  next
    case (Inr combined)
    then have "results = map (placed idf ph ids combined) [0..<length ids]"
      using assms(1) retrieve_many_combined[OF False Inr, of idf ph wt nf]
      by (simp split: if_splits)
    then obtain i where "res = placed idf ph ids combined i" using assms(2) by auto
    then have "(\<exists>j. res = ph j) \<or> res \<in> set combined"
    proof (cases "find (\<lambda>e. last_pos ids (idf e) = Some i) (rev combined)")
      case None
      then show ?thesis using \<open>res = placed idf ph ids combined i\<close> by (auto simp: placed_def)
    next
      case (Some e)
      then obtain n where "n < length (rev combined)" "e = rev combined ! n"
        unfolding find_Some_iff by blast
      then have "e \<in> set (rev combined)" using nth_mem by blast
      then show ?thesis using Some \<open>res = placed idf ph ids combined i\<close> by (simp add: placed_def)
    qed
    then show ?thesis using combined_responses_delivered[OF Inr] by blast
  qed
qed

lemma removeCompleted_filter:
  "removeCompleted pending done = filter (\<lambda>i. i \<notin> set done) pending"
proof -
  have m: "map_of (fold (\<lambda>i m. AList.update i () m) done acc) i = None
             \<longleftrightarrow> i \<notin> set done \<and> map_of acc i = None"
    for acc :: "(string, unit) gomap" and i
    by (induction "done" arbitrary: acc) (auto simp: update_conv')
  show ?thesis
    by (cases "done = []") (simp_all add: removeCompleted_def Let_def m)
qed

lemma first_missing_None:
  "first_missing received ready = None \<Longrightarrow> i \<in> set ready \<Longrightarrow> map_of received i \<noteq> None"
  by (auto simp: first_missing_def find_None_iff)

lemma store_results_inv:
  assumes "store_results lib sts rb (rcv, cmp, fl) = ((rcv', cmp', fl'), None)"
    and "\<And>res v. res \<in> set rb \<Longrightarrow> convertBatchResult lib res = Inr v \<Longrightarrow> W (ID_rb res) v"
  shows "(map_of cmp' i = map_of cmp i \<and> map_of rcv' i = map_of rcv i)
         \<or> (\<exists>v. map_of cmp' i = Some v \<and> map_of rcv' i = Some v \<and> W i v)"
  using assms
proof (induction rb arbitrary: rcv cmp fl)
  case Nil
  then show ?case by simp
next
  case (Cons res rb)
  from Cons.prems(1) obtain v where v: "convertBatchResult lib res = Inr v"
    by (cases "convertBatchResult lib res") auto
  let ?fl = "(case map_of sts (ID_rb res) of
                Some status \<Rightarrow>
                  if status = JobFailure \<or> status = JobCancelled
                  then AList.update (ID_rb res) status fl else fl
              | None \<Rightarrow> fl)"
  have rec: "store_results lib sts rb
               (AList.update (ID_rb res) v rcv, AList.update (ID_rb res) v cmp, ?fl)
             = ((rcv', cmp', fl'), None)"
    using Cons.prems(1) v by simp
  have W: "\<And>r w. r \<in> set rb \<Longrightarrow> convertBatchResult lib r = Inr w \<Longrightarrow> W (ID_rb r) w"
    using Cons.prems(2) by simp
  have Wres: "W (ID_rb res) v" using Cons.prems(2) v by simp
  from Cons.IH[OF rec W]
  have ih: "(map_of cmp' i = map_of (AList.update (ID_rb res) v cmp) i
              \<and> map_of rcv' i = map_of (AList.update (ID_rb res) v rcv) i)
            \<or> (\<exists>v. map_of cmp' i = Some v \<and> map_of rcv' i = Some v \<and> W i v)" .
  then show ?case using Wres by (auto simp: update_conv')
qed

lemma store_results_error:
  "store_results lib sts rb acc = (acc', Some err) \<Longrightarrow> \<not> completes (Some err)"
proof (induction rb arbitrary: acc)
  case Nil
  then show ?case by simp
next
  case (Cons res rb)
  obtain rcv cmp fl where acc: "acc = (rcv, cmp, fl)" by (cases acc)
  show ?case
  proof (cases "convertBatchResult lib res")
    case (Inl e)
    then show ?thesis using Cons.prems acc by (auto dest: convertBatchResult_error)
  next
    case (Inr v)
    then show ?thesis using Cons.prems acc Cons.IH by auto
  qed
qed

lemma end_of_round_inv:
  assumes "batch_inv G ids b pending"
  shows "case end_of_round rd b pending failures of
           Return b' results err \<Rightarrow> \<not> completes err
         | Break b' pending' failures' \<Rightarrow> pending' = [] \<and> batch_inv G ids b' pending'
         | Continue b' pending' failures' \<Rightarrow> batch_inv G ids b' pending'"
  using assms by (auto simp: end_of_round_def completes_def split: option.splits)

lemma poll_round_inv:
  assumes inv: "batch_inv G ids b pending"
    and G: "\<And>e v. delivered {rd} e \<Longrightarrow> convertBatchResult lib e = Inr v \<Longrightarrow> G (ID_rb e) v"
  shows "case poll_round lib rd b pending failures of
           Return b' results err \<Rightarrow> \<not> completes err
         | Break b' pending' failures' \<Rightarrow> pending' = [] \<and> batch_inv G ids b' pending'
         | Continue b' pending' failures' \<Rightarrow> batch_inv G ids b' pending'"
proof (cases "br_done_top rd")
  case (Some c)
  then show ?thesis by (simp add: poll_round_def completes_def)
next
  case None
  note top = this
  show ?thesis
  proof (cases "RetrieveStatusManyWithContext (br_statuses rd) pending")
    case (Inl err)
    then show ?thesis using top by (simp add: poll_round_def status_many_error)
  next
    case (Inr statusBatch)
    obtain sts ready where f: "fold note_status statusBatch (statuses b, []) = (sts, ready)"
      by (cases "fold note_status statusBatch (statuses b, [])")
    let ?b1 = "b\<lparr>statuses := sts\<rparr>"
    have inv1: "batch_inv G ids ?b1 pending" using inv by (simp add: batch_inv_def)
    show ?thesis
    proof (cases "ready = []")
      case True
      then have "poll_round lib rd b pending failures = end_of_round rd ?b1 pending failures"
        using top Inr f by (simp add: poll_round_def)
      then show ?thesis using end_of_round_inv[OF inv1] by simp
    next
      case False
      note ready = this
      show ?thesis
      proof (cases "RetrieveResultManyWithContext (br_results rd) ready")
        case (Inl err)
        then show ?thesis using top Inr f ready by (simp add: poll_round_def result_many_error)
      next
        case (Inr resultsBatch)
        note rb = this
        obtain received compl failures' oerr where
          st: "store_results lib sts resultsBatch ([], completed ?b1, failures)
                 = ((received, compl, failures'), oerr)"
          by (cases "store_results lib sts resultsBatch ([], completed ?b1, failures)") auto
        show ?thesis
        proof (cases oerr)
          case (Some err)
          then have "poll_round lib rd b pending failures
                       = Return (?b1\<lparr>completed := compl\<rparr>) [] (Some err)"
            using top \<open>RetrieveStatusManyWithContext (br_statuses rd) pending = Inr statusBatch\<close>
              f ready rb st by (simp add: poll_round_def)
          then show ?thesis using store_results_error[OF st[unfolded Some]] by simp
        next
          case None
          let ?b2 = "?b1\<lparr>completed := compl\<rparr>"
          show ?thesis
          proof (cases "first_missing received ready")
            case (Some i)
            then have "poll_round lib rd b pending failures = Return ?b2 [] (Some (ResultMissing i))"
              using top \<open>RetrieveStatusManyWithContext (br_statuses rd) pending = Inr statusBatch\<close>
                f ready rb st None by (simp add: poll_round_def)
            then show ?thesis by (simp add: completes_def)
          next
            case None
            note fm = this
            have W: "\<And>res v. res \<in> set resultsBatch \<Longrightarrow> convertBatchResult lib res = Inr v
                        \<Longrightarrow> G (ID_rb res) v"
            proof -
              fix res v
              assume r: "res \<in> set resultsBatch" and c: "convertBatchResult lib res = Inr v"
              have "(\<exists>i. res = result_placeholder i)
                    \<or> (\<exists>k chunk resp. br_results rd k chunk = Inr resp \<and> res \<in> set resp)"
                using rb r unfolding RetrieveResultManyWithContext_def
                by (rule retrieve_many_entries)
              then have "delivered {rd} res"
                using c by (auto simp: delivered_def convertBatchResult_placeholder)
              then show "G (ID_rb res) v" using c by (rule G)
            qed
            have inv2: "batch_inv G ids ?b2 (removeCompleted pending ready)"
              unfolding batch_inv_def
            proof (intro conjI ballI)
              show "jobIDs ?b2 = ids" using inv by (simp add: batch_inv_def)
            next
              fix i assume i: "i \<in> set ids"
              from store_results_inv[where W = G, OF st[unfolded \<open>oerr = None\<close>] W, of i]
              have s: "(map_of compl i = map_of (completed b) i \<and> map_of received i = None)
                       \<or> (\<exists>v. map_of compl i = Some v \<and> map_of received i = Some v \<and> G i v)"
                by simp
              show "i \<in> set (removeCompleted pending ready)
                      \<or> (\<exists>v. map_of (completed ?b2) i = Some v \<and> G i v)"
              proof (cases "i \<in> set ready")
                case True
                then have "map_of received i \<noteq> None" using fm by (rule first_missing_None[rotated])
                then show ?thesis using s by auto
              next
                case False
                show ?thesis
                proof (cases "i \<in> set pending")
                  case True
                  then show ?thesis using False by (simp add: removeCompleted_filter)
                next
                  case False
                  then obtain v where "map_of (completed b) i = Some v" "G i v"
                    using inv i by (auto simp: batch_inv_def)
                  then show ?thesis using s by auto
                qed
              qed
            qed
            have "poll_round lib rd b pending failures
                    = end_of_round rd ?b2 (removeCompleted pending ready) failures'"
              using top \<open>RetrieveStatusManyWithContext (br_statuses rd) pending = Inr statusBatch\<close>
                f ready rb st \<open>oerr = None\<close> fm by (simp add: poll_round_def)
            then show ?thesis using end_of_round_inv[OF inv2] by simp
          qed
        qed
      qed
    qed
  qed
qed

lemma wait_loop_inv:
  assumes "wait_loop lib rounds b pending failures = Some (b', results, err)"
    and "completes err"
    and "batch_inv G ids b pending"
    and "\<And>e v. delivered (set rounds) e \<Longrightarrow> convertBatchResult lib e = Inr v \<Longrightarrow> G (ID_rb e) v"
  shows "batch_inv G ids b' [] \<and> results = map (\<lambda>i. the (map_of (completed b') i)) ids"
  using assms
proof (induction rounds arbitrary: b pending failures)
  case Nil
  then have p: "pending = []" and r: "b' = b" "(results, err) = assemble lib b failures"
    by (auto split: if_splits)
  have all: "\<forall>i \<in> set (jobIDs b). map_of (completed b) i \<noteq> None"
    using Nil.prems(3) p by (auto simp: batch_inv_def)
  show ?case
    using Nil.prems(3) p r assemble_all(1)[OF all, where failures = failures and lib = lib]
    by (auto simp: batch_inv_def dest: arg_cong[where f = fst])
next
  case (Cons rd rest)
  show ?case
  proof (cases "pending = []")
    case True
    then have r: "b' = b" "(results, err) = assemble lib b failures"
      using Cons.prems(1) by auto
    have all: "\<forall>i \<in> set (jobIDs b). map_of (completed b) i \<noteq> None"
      using Cons.prems(3) True by (auto simp: batch_inv_def)
    show ?thesis
      using Cons.prems(3) True r assemble_all(1)[OF all, where failures = failures and lib = lib]
      by (auto simp: batch_inv_def dest: arg_cong[where f = fst])
  next
    case False
    have G1: "\<And>e v. delivered {rd} e \<Longrightarrow> convertBatchResult lib e = Inr v \<Longrightarrow> G (ID_rb e) v"
      using Cons.prems(4) by (auto simp: delivered_def)
    have G2: "\<And>e v. delivered (set rest) e \<Longrightarrow> convertBatchResult lib e = Inr v \<Longrightarrow> G (ID_rb e) v"
      using Cons.prems(4) by (auto simp: delivered_def)
    have step: "case poll_round lib rd b pending failures of
           Return b' results err \<Rightarrow> \<not> completes err
         | Break b' pending' failures' \<Rightarrow> pending' = [] \<and> batch_inv G ids b' pending'
         | Continue b' pending' failures' \<Rightarrow> batch_inv G ids b' pending'"
      using Cons.prems(3) by (rule poll_round_inv) (rule G1)
    show ?thesis
    proof (cases "poll_round lib rd b pending failures")
      case (Return b1 r1 e1)
      have "\<not> completes e1"
        using step[unfolded Return batch_step.case] .
      moreover have "err = e1" using Cons.prems(1) False Return by simp
      ultimately show ?thesis using Cons.prems(2) by simp
    next
      case (Break b1 p1 f1)
      have "p1 = [] \<and> batch_inv G ids b1 p1"
        using step[unfolded Break batch_step.case] .
      then have i1: "p1 = []" "batch_inv G ids b1 p1" by blast+
      have r: "b' = b1" "(results, err) = assemble lib b1 f1"
        using Cons.prems(1) False Break by auto
      have all: "\<forall>i \<in> set (jobIDs b1). map_of (completed b1) i \<noteq> None"
        using i1 by (auto simp: batch_inv_def)
      have "fst (assemble lib b1 f1) = results" using r(2) by (metis fst_conv)
      then show ?thesis
        using i1 r(1) assemble_all(1)[OF all, where failures = f1 and lib = lib] by (simp add: batch_inv_def)
    next
      case (Continue b1 p1 f1)
      have i1: "batch_inv G ids b1 p1"
        using step[unfolded Continue batch_step.case] .
      have "wait_loop lib rest b1 p1 f1 = Some (b', results, err)"
        using Cons.prems(1) False Continue by simp
      then show ?thesis using Cons.prems(2) i1 G2 by (rule Cons.IH)
    qed
  qed
qed

text \<open>
  Claim C1. When \<^verbatim>\<open>JobBatch.WaitContext\<close> completes, with no error or with the aggregate
  error of failed jobs, it returns as many results as the batch has job ids, and the
  \<open>i\<close>-th result is the completed result stored for the \<open>i\<close>-th job id: the conversion of
  a batch-result entry with that id which the result endpoint returned during the wait,
  whatever the order of the rounds and of the entries in the responses.
\<close>

theorem JobBatch_WaitContext_C1:
  assumes "JobBatch_WaitContext lib b rounds = Some (b', results, err)" and "completes err"
  shows "length results = length (jobIDs b)
         \<and> (\<forall>i < length (jobIDs b).
               map_of (completed b') (jobIDs b ! i) = Some (results ! i)
               \<and> (\<exists>e. delivered (set rounds) e \<and> ID_rb e = jobIDs b ! i
                        \<and> convertBatchResult lib e = Inr (results ! i)))"
proof -
  let ?G = "\<lambda>i v. \<exists>e. delivered (set rounds) e \<and> ID_rb e = i \<and> convertBatchResult lib e = Inr v"
  have w: "wait_loop lib rounds b (jobIDs b) [] = Some (b', results, err)"
    using assms(1) by (simp add: JobBatch_WaitContext_def)
  have i0: "batch_inv ?G (jobIDs b) b (jobIDs b)" by (simp add: batch_inv_def)
  have g: "\<And>e v. delivered (set rounds) e \<Longrightarrow> convertBatchResult lib e = Inr v \<Longrightarrow> ?G (ID_rb e) v"
    by blast
  from wait_loop_inv[where G = ?G, OF w assms(2) i0 g]
  have inv: "batch_inv ?G (jobIDs b) b' []"
    and res: "results = map (\<lambda>i. the (map_of (completed b') i)) (jobIDs b)" by simp_all
  show ?thesis
  proof (intro conjI allI impI)
    show "length results = length (jobIDs b)" using res by simp
  next
    fix i assume i: "i < length (jobIDs b)"
    then have "jobIDs b ! i \<in> set (jobIDs b)" by simp
    then have "\<exists>v. map_of (completed b') (jobIDs b ! i) = Some v \<and> ?G (jobIDs b ! i) v"
      using inv by (simp add: batch_inv_def)
    then obtain v where v: "map_of (completed b') (jobIDs b ! i) = Some v" "?G (jobIDs b ! i) v"
      by blast
    have "results ! i = v" using res i v(1) by simp
    then show "map_of (completed b') (jobIDs b ! i) = Some (results ! i)" using v(1) by simp
    show "\<exists>e. delivered (set rounds) e \<and> ID_rb e = jobIDs b ! i
                        \<and> convertBatchResult lib e = Inr (results ! i)"
      using v(2) \<open>results ! i = v\<close> by simp
  qed
qed

lemma sample_run:
  "JobBatch_WaitContext sample_lib (newJobBatch sample_ids 1) [sample_batch_round]
     = Some (\<lparr>jobIDs = sample_ids, timeout_b = Second,
              statuses = map (\<lambda>i. (i, JobSuccess)) sample_ids,
              completed = [(''job-1'', sample_result ''first''), (''job-2'', sample_result ''second''),
                           (''job-3'', sample_result ''third'')]\<rparr>,
             [sample_result ''first'', sample_result ''second'', sample_result ''third''], None)"
  by code_simp

lemma sample_run_two_rounds:
  "JobBatch_WaitContext sample_lib (newJobBatch sample_ids 1) [sample_early_round, sample_batch_round]
     = Some (\<lparr>jobIDs = sample_ids, timeout_b = Second,
              statuses = [(''job-1'', JobSuccess), (''job-2'', JobFailure), (''job-3'', JobSuccess)],
              completed = [(''job-2'', sample_result ''second''), (''job-1'', sample_result ''first''),
                           (''job-3'', sample_result ''third'')]\<rparr>,
             [sample_result ''first'', sample_result ''second'', sample_result ''third''],
             Some (JobsFailed [''job-2'']))"
  by code_simp

text \<open>
  Three jobs whose results come back in the order job-2, job-1, job-3: once with all three
  terminal in the first round, once with job-2 failing a round before the others succeed.
\<close>

theorem JobBatch_WaitContext_C1_witness:
  "JobBatch_WaitContext sample_lib (newJobBatch sample_ids 1) [sample_batch_round]
     = Some (\<lparr>jobIDs = sample_ids, timeout_b = Second,
              statuses = map (\<lambda>i. (i, JobSuccess)) sample_ids,
              completed = [(''job-1'', sample_result ''first''), (''job-2'', sample_result ''second''),
                           (''job-3'', sample_result ''third'')]\<rparr>,
             [sample_result ''first'', sample_result ''second'', sample_result ''third''], None)
   \<and> completes None
   \<and> (\<exists>e. delivered {sample_batch_round} e \<and> ID_rb e = ''job-1''
          \<and> convertBatchResult sample_lib e = Inr (sample_result ''first''))
   \<and> (\<exists>e. delivered {sample_batch_round} e \<and> ID_rb e = ''job-2''
          \<and> convertBatchResult sample_lib e = Inr (sample_result ''second''))
   \<and> (\<exists>e. delivered {sample_batch_round} e \<and> ID_rb e = ''job-3''
          \<and> convertBatchResult sample_lib e = Inr (sample_result ''third''))
   \<and> map_option (fst \<circ> snd)
        (JobBatch_WaitContext sample_lib (newJobBatch sample_ids 1)
           [sample_early_round, sample_batch_round])
     = Some [sample_result ''first'', sample_result ''second'', sample_result ''third'']
   \<and> completes (Some (JobsFailed [''job-2'']))"
proof -
  have c: "completes None" "completes (Some (JobsFailed [''job-2'']))"
    by (simp_all add: completes_def)
  have l: "length (jobIDs (newJobBatch sample_ids 1)) = 3" "jobIDs (newJobBatch sample_ids 1) = sample_ids"
    by (simp_all add: newJobBatch_def sample_ids_def)
  note t = JobBatch_WaitContext_C1[OF sample_run c(1), unfolded l]
  have e0: "\<exists>e. delivered {sample_batch_round} e \<and> ID_rb e = ''job-1''
          \<and> convertBatchResult sample_lib e = Inr (sample_result ''first'')"
    using t[THEN conjunct2, rule_format, of 0] by (simp add: sample_ids_def)
  have e1: "\<exists>e. delivered {sample_batch_round} e \<and> ID_rb e = ''job-2''
          \<and> convertBatchResult sample_lib e = Inr (sample_result ''second'')"
    using t[THEN conjunct2, rule_format, of 1] by (simp add: sample_ids_def)
  have e2: "\<exists>e. delivered {sample_batch_round} e \<and> ID_rb e = ''job-3''
          \<and> convertBatchResult sample_lib e = Inr (sample_result ''third'')"
    using t[THEN conjunct2, rule_format, of 2] by (simp add: sample_ids_def)
  show ?thesis
    using e0 e1 e2 sample_run sample_run_two_rounds c by simp
qed

end
